theory Spec2Isabelle
  imports Complex_Main "HOL-Library.Word" "HOL-Library.Sublist"
begin

unbundle bit_operations_syntax

section \<open>Enumerations\<close>

text \<open>
  The header \<^verbatim>\<open>enums.h\<close> is not among the sources; the enumerations are recovered from
  the \<^verbatim>\<open>switch\<close> statements of \<^verbatim>\<open>utility.h\<close> that name their enumerators.  A C++
  \<^verbatim>\<open>enum class\<close> can also hold a value that is no enumerator (through
  \<^verbatim>\<open>static_cast\<close>); every \<^verbatim>\<open>switch\<close> sends such a value to its \<^verbatim>\<open>default\<close> branch, and the
  last constructor of each datatype stands for it.
\<close>

datatype ImageType =
  Jpeg | Png | Webp | Tiff | Gif | Svg | Pdf | Heif | Magick | Unknown

text \<open>Modelled from the spec: the enumerators of \<^verbatim>\<open>enum class Output\<close> (section 3 of the
  spec lists them; the sources do not give their numeric values).\<close>

datatype Output =
  OJpeg | OPng | OWebp | OAvif | OTiff | OGif | OJson | OOther

text \<open>Modelled from the spec: the enumerators of \<^verbatim>\<open>enum class Position\<close> (the nine anchors
  of section 3); \<open>OtherPosition\<close> is any further value, which \<^verbatim>\<open>calculate_position\<close> treats
  in its \<^verbatim>\<open>default\<close> branch.\<close>

datatype Position =
  TopLeft | Top | TopRight | Left | Centre | Right
  | BottomLeft | Bottom | BottomRight | OtherPosition nat

section \<open>Integers of the host language\<close>

text \<open>
  C++ \<^verbatim>\<open>int\<close> values are modelled by unbounded integers: signed overflow is undefined in
  C++, so the model describes exactly the calls whose arithmetic stays in range.
  Integer division in C++ truncates toward zero, unlike \<open>div\<close> on \<^typ>\<open>int\<close>.
\<close>

definition int_div :: "int \<Rightarrow> int \<Rightarrow> int" where
  "int_div a b = sgn a * sgn b * (\<bar>a\<bar> div \<bar>b\<bar>)"

section \<open>Position resolver: \<^verbatim>\<open>calculate_position\<close>\<close>

text \<open>The locals \<^verbatim>\<open>left\<close> and \<^verbatim>\<open>top\<close> start at 0; each \<^verbatim>\<open>case\<close> assigns some of them.\<close>

fun calculate_position :: "int \<Rightarrow> int \<Rightarrow> int \<Rightarrow> int \<Rightarrow> Position \<Rightarrow> int \<times> int" where
  "calculate_position in_width in_height out_width out_height Top =
     (int_div (out_width - in_width) 2, 0)"
| "calculate_position in_width in_height out_width out_height Right =
     (out_width - in_width, int_div (out_height - in_height) 2)"
| "calculate_position in_width in_height out_width out_height Bottom =
     (int_div (out_width - in_width) 2, out_height - in_height)"
| "calculate_position in_width in_height out_width out_height Left =
     (0, int_div (out_height - in_height) 2)"
| "calculate_position in_width in_height out_width out_height TopRight =
     (out_width - in_width, 0)"
| "calculate_position in_width in_height out_width out_height BottomRight =
     (out_width - in_width, out_height - in_height)"
| "calculate_position in_width in_height out_width out_height BottomLeft =
     (0, out_height - in_height)"
| "calculate_position in_width in_height out_width out_height TopLeft =
     (0, 0)"
| "calculate_position in_width in_height out_width out_height Centre =
     (int_div (out_width - in_width) 2, int_div (out_height - in_height) 2)"
| "calculate_position in_width in_height out_width out_height (OtherPosition k) =
     (int_div (out_width - in_width) 2, int_div (out_height - in_height) 2)"

text \<open>The spec's table writes \<open>(outW - inW)/2\<close>, truncated toward zero: the half of a
  non-negative delta is rounded down, the half of a negative delta is rounded up.\<close>

definition half_toward_zero :: "int \<Rightarrow> int" where
  "half_toward_zero d = (if 0 \<le> d then d div 2 else - ((- d) div 2))"

section \<open>Format capability resolver\<close>

subsection \<open>\<^verbatim>\<open>determine_image_extension\<close> and \<^verbatim>\<open>supported_savers_string\<close>\<close>

fun determine_image_extension :: "Output \<Rightarrow> string" where
  "determine_image_extension OJpeg = ''.jpg''"
| "determine_image_extension OWebp = ''.webp''"
| "determine_image_extension OAvif = ''.avif''"
| "determine_image_extension OTiff = ''.tiff''"
| "determine_image_extension OGif = ''.gif''"
| "determine_image_extension OJson = ''.json''"
| "determine_image_extension OPng = ''.png''"
| "determine_image_extension OOther = ''.png''"

text \<open>
  The mask is a \<^verbatim>\<open>uintptr_t\<close> (64 bits on the service's platforms); \<^verbatim>\<open>1U << i\<close> is a
  32-bit unsigned value, widened for the \<^verbatim>\<open>&\<close>.  The numeric values of the \<^verbatim>\<open>Output\<close>
  enumerators are declared in \<^verbatim>\<open>enums.h\<close>, which the sources do not include, so
  \<^verbatim>\<open>static_cast<Output>(output)\<close> is the parameter \<open>output_of\<close>.  The loop variable \<^verbatim>\<open>i\<close>
  runs from 1 while \<^verbatim>\<open>i <= 7\<close>; the loop state is \<^verbatim>\<open>result\<close>.
\<close>

type_synonym uintptr = "64 word"

function savers_loop :: "(uintptr \<Rightarrow> Output) \<Rightarrow> uintptr \<Rightarrow> nat \<Rightarrow> string \<Rightarrow> string" where
  "savers_loop output_of msk i result =
     (if i \<le> 7 then
        (let output = (ucast (push_bit i (1 :: 32 word)) :: uintptr) in
         if msk AND output \<noteq> 0 then
           (let saver = drop 1 (determine_image_extension (output_of output)) in
            savers_loop output_of msk (i + 1)
              (if result = [] then saver else result @ '', '' @ saver))
         else savers_loop output_of msk (i + 1) result)
      else result)"
  by pat_completeness auto
termination
  by (relation "measure (\<lambda>(output_of, msk, i, result). 8 - i)") auto

declare savers_loop.simps [simp del]

definition supported_savers_string :: "(uintptr \<Rightarrow> Output) \<Rightarrow> uintptr \<Rightarrow> string" where
  "supported_savers_string output_of msk = savers_loop output_of msk 1 []"

text \<open>The spec's words: the extensions of the set bits, in ascending bit order, joined
  with a separator.\<close>

fun join_with :: "string \<Rightarrow> string list \<Rightarrow> string" where
  "join_with sep [] = []"
| "join_with sep [x] = x"
| "join_with sep (x # y # ys) = x @ sep @ join_with sep (y # ys)"

definition saver_of_bit :: "(uintptr \<Rightarrow> Output) \<Rightarrow> nat \<Rightarrow> string" where
  "saver_of_bit output_of i = drop 1 (determine_image_extension (output_of (2 ^ i)))"

definition savers_spec :: "(uintptr \<Rightarrow> Output) \<Rightarrow> uintptr \<Rightarrow> string" where
  "savers_spec output_of msk =
     join_with '', '' (map (saver_of_bit output_of) (filter (bit msk) [1, 2, 3, 4, 5, 6, 7]))"

text \<open>The loop invariant: before the iteration for bit \<open>i\<close>, \<^verbatim>\<open>result\<close> holds the
  joined savers of the set bits below \<open>i\<close>.\<close>

definition savers_upto :: "(uintptr \<Rightarrow> Output) \<Rightarrow> uintptr \<Rightarrow> nat \<Rightarrow> string" where
  "savers_upto output_of msk i =
     join_with '', '' (map (saver_of_bit output_of) (filter (bit msk) [1..<i]))"

subsection \<open>\<^verbatim>\<open>determine_image_type\<close>\<close>

text \<open>
  The libvips version macros come from the library's headers; they are a parameter.
  \<^verbatim>\<open>VIPS_VERSION_AT_LEAST\<close> is transcribed as the header writes it.
\<close>

record vips_version =
  VIPS_MAJOR_VERSION :: nat
  VIPS_MINOR_VERSION :: nat
  VIPS_MICRO_VERSION :: nat

definition VIPS_VERSION_AT_LEAST :: "vips_version \<Rightarrow> nat \<Rightarrow> nat \<Rightarrow> nat \<Rightarrow> bool" where
  "VIPS_VERSION_AT_LEAST v major minor patch =
     (major < VIPS_MAJOR_VERSION v
      \<or> (major = VIPS_MAJOR_VERSION v \<and> minor < VIPS_MINOR_VERSION v)
      \<or> (major = VIPS_MAJOR_VERSION v \<and> minor = VIPS_MINOR_VERSION v
          \<and> patch \<le> VIPS_MICRO_VERSION v))"

definition VIPS_FOREIGN_LOAD_GIF :: "vips_version \<Rightarrow> string" where
  "VIPS_FOREIGN_LOAD_GIF v =
     (if VIPS_VERSION_AT_LEAST v 8 11 0 then ''VipsForeignLoadNsgif''
      else ''VipsForeignLoadGif'')"

text \<open>
  \<^verbatim>\<open>std::string::rfind(str, pos)\<close>: the last position at or before \<open>pos\<close> where \<open>str\<close>
  occurs, \<open>None\<close> for \<^verbatim>\<open>npos\<close>.  The search starts at \<open>min (size - n) pos\<close> and walks
  down to 0.
\<close>

fun rfind_down :: "string \<Rightarrow> string \<Rightarrow> nat \<Rightarrow> nat option" where
  "rfind_down s str 0 = (if take (length str) s = str then Some 0 else None)"
| "rfind_down s str (Suc k) =
     (if take (length str) (drop (Suc k) s) = str then Some (Suc k)
      else rfind_down s str k)"

definition rfind :: "string \<Rightarrow> string \<Rightarrow> nat \<Rightarrow> nat option" where
  "rfind s str pos =
     (if length str \<le> length s then rfind_down s str (min (length s - length str) pos)
      else None)"

definition determine_image_type :: "vips_version \<Rightarrow> string \<Rightarrow> ImageType" where
  "determine_image_type v loader =
     (if rfind loader ''VipsForeignLoadJpeg'' 0 = Some 0 then Jpeg
      else if rfind loader ''VipsForeignLoadPng'' 0 = Some 0 then Png
      else if rfind loader ''VipsForeignLoadWebp'' 0 = Some 0 then Webp
      else if rfind loader ''VipsForeignLoadTiff'' 0 = Some 0 then Tiff
      else if rfind loader (VIPS_FOREIGN_LOAD_GIF v) 0 = Some 0 then Gif
      else if rfind loader ''VipsForeignLoadSvg'' 0 = Some 0 then Svg
      else if rfind loader ''VipsForeignLoadPdf'' 0 = Some 0 then Pdf
      else if rfind loader ''VipsForeignLoadHeif'' 0 = Some 0 then Heif
      else if rfind loader ''VipsForeignLoadMagick'' 0 = Some 0 then Magick
      else Unknown)"

text \<open>The spec's words: a fixed, ordered table of loader-name prefixes, searched for the
  first prefix of the loader identifier; no match is \<open>Unknown\<close>.\<close>

definition loader_table :: "string \<Rightarrow> (string \<times> ImageType) list" where
  "loader_table gif =
     [(''VipsForeignLoadJpeg'', Jpeg), (''VipsForeignLoadPng'', Png),
      (''VipsForeignLoadWebp'', Webp), (''VipsForeignLoadTiff'', Tiff),
      (gif, Gif), (''VipsForeignLoadSvg'', Svg), (''VipsForeignLoadPdf'', Pdf),
      (''VipsForeignLoadHeif'', Heif), (''VipsForeignLoadMagick'', Magick)]"

definition matches :: "string \<Rightarrow> string \<times> ImageType \<Rightarrow> bool" where
  "matches loader e = prefix (fst e) loader"

definition lookup_prefix :: "(string \<times> ImageType) list \<Rightarrow> string \<Rightarrow> ImageType" where
  "lookup_prefix table loader =
     (case find (matches loader) table of None \<Rightarrow> Unknown | Some e \<Rightarrow> snd e)"

fun image_type_id :: "ImageType \<Rightarrow> string" where
  "image_type_id Jpeg = ''jpeg''"
| "image_type_id Png = ''png''"
| "image_type_id Webp = ''webp''"
| "image_type_id Tiff = ''tiff''"
| "image_type_id Gif = ''gif''"
| "image_type_id Svg = ''svg''"
| "image_type_id Pdf = ''pdf''"
| "image_type_id Heif = ''heif''"
| "image_type_id Magick = ''magick''"
| "image_type_id Unknown = ''unknown''"

section \<open>Decimal output\<close>

text \<open>
  \<^verbatim>\<open>printf\<close>'s \<^verbatim>\<open>%d\<close> and \<^verbatim>\<open>%ld\<close> and the stream's \<^verbatim>\<open><<\<close> on an \<^verbatim>\<open>int\<close> print the decimal
  digits, with a leading minus sign for a negative value.
\<close>

definition digit_char :: "nat \<Rightarrow> char" where
  "digit_char d = ''0123456789'' ! d"

fun show_nat :: "nat \<Rightarrow> string" where
  "show_nat n =
     (if n < 10 then [digit_char n] else show_nat (n div 10) @ [digit_char (n mod 10)])"

declare show_nat.simps [simp del]

definition show_int :: "int \<Rightarrow> string" where
  "show_int i = (if i < 0 then CHR ''-'' # show_nat (nat (- i)) else show_nat (nat i))"

section \<open>Evaluation deadline governor\<close>

text \<open>
  The part of the backend's state the governor touches: the image's kill flag
  (\<^verbatim>\<open>vips_image_set_kill\<close>), its progress-reporting flag (\<^verbatim>\<open>vips_image_set_progress\<close>), the
  memory blocks allocated against the image with \<^verbatim>\<open>VIPS_NEW\<close> (a pointer to a block is its
  index, and the blocks live as long as the image), the user-data pointers of the
  \<^verbatim>\<open>image_eval_cb\<close> handlers connected to the image's \<^verbatim>\<open>eval\<close> signal, and the backend's error
  buffer, to which \<^verbatim>\<open>vips_error\<close> appends.  \<^verbatim>\<open>time_t\<close> and \<^verbatim>\<open>int\<close> are integers; the
  callback only compares and stores them.
\<close>

record VipsProgress =
  run :: int
  percent :: int

record VipsImage =
  kill :: bool
  progress_signal :: bool
  local_cells :: "int list"
  eval_handlers :: "nat list"
  error_buffer :: string

definition vips_image_set_kill :: "VipsImage \<Rightarrow> bool \<Rightarrow> VipsImage" where
  "vips_image_set_kill img k = img\<lparr>kill := k\<rparr>"

definition vips_image_set_progress :: "VipsImage \<Rightarrow> bool \<Rightarrow> VipsImage" where
  "vips_image_set_progress img p = img\<lparr>progress_signal := p\<rparr>"

definition vips_error :: "VipsImage \<Rightarrow> string \<Rightarrow> string \<Rightarrow> VipsImage" where
  "vips_error img domain msg =
     img\<lparr>error_buffer := error_buffer img @ domain @ '': '' @ msg @ [CHR 0x0A]\<rparr>"

definition g_signal_connect_eval :: "VipsImage \<Rightarrow> nat \<Rightarrow> VipsImage" where
  "g_signal_connect_eval img data = img\<lparr>eval_handlers := eval_handlers img @ [data]\<rparr>"

text \<open>The format string of \<^verbatim>\<open>image_eval_cb\<close> with its five arguments filled in.\<close>

definition timeout_message :: "int \<Rightarrow> int \<Rightarrow> int \<Rightarrow> string" where
  "timeout_message t r p =
     ''Maximum image processing time of '' @ show_int t @ '' second''
     @ (if t > 1 then ''s'' else '''') @ '' exceeded with '' @ show_int r @ '' second''
     @ (if r > 1 then ''s'' else '''') @ ''. Operation was canceled after ''
     @ show_int p @ ''% completion''"

text \<open>\<^verbatim>\<open>timeout\<close> is the pointer to the budget cell; \<^verbatim>\<open>*timeout\<close> reads the cell and
  \<^verbatim>\<open>*timeout = 0\<close> writes it.\<close>

definition image_eval_cb :: "VipsImage \<Rightarrow> VipsProgress \<Rightarrow> nat \<Rightarrow> VipsImage" where
  "image_eval_cb img progress timeout =
     (let t = local_cells img ! timeout in
      if t > 0 \<and> run progress \<ge> t then
        (let img1 = vips_image_set_kill img True;
             img2 = vips_error img1 ''weserv''
                        (timeout_message t (run progress) (percent progress))
         in img2\<lparr>local_cells := (local_cells img2)[timeout := 0]\<rparr>)
      else img)"

text \<open>\<^verbatim>\<open>VIPS_NEW\<close> allocates a fresh block, which the next statement initialises; the two are
  one step here.\<close>

definition setup_timeout_handler :: "VipsImage \<Rightarrow> int \<Rightarrow> VipsImage" where
  "setup_timeout_handler img process_timeout =
     (if process_timeout > 0 then
        (let timeout = length (local_cells img);
             img1 = img\<lparr>local_cells := local_cells img @ [process_timeout]\<rparr>;
             img2 = g_signal_connect_eval img1 timeout
         in vips_image_set_progress img2 True)
      else img)"

text \<open>A sequence of progress notifications delivered to the handler registered with the
  budget cell \<open>timeout\<close>, oldest first.\<close>

definition deliver :: "VipsProgress list \<Rightarrow> nat \<Rightarrow> VipsImage \<Rightarrow> VipsImage" where
  "deliver ticks timeout img = fold (\<lambda>progress im. image_eval_cb im progress timeout) ticks img"

section \<open>Floating-point values\<close>

text \<open>
  \<^verbatim>\<open>float\<close> and \<^verbatim>\<open>double\<close> are the IEEE 754 binary formats with 24 and 53 significant bits.
  A value is a finite real number, an infinity or NaN.  Every arithmetic operation
  delivers the exact result rounded to the nearest value of its type, halfway cases to the
  even one, and an infinity when the rounded result is beyond the largest finite value;
  each operation is rounded to its own type.  The sign of a zero is not tracked: it can
  only decide the sign of an infinity that a division by that zero delivers, and in
  \<^verbatim>\<open>calculate_focal_point\<close> such an infinity always reaches the conversion to \<^verbatim>\<open>int\<close>, where
  the behaviour is undefined for either sign.
\<close>

datatype fp = Finite real | PInf | NInf | NaN

text \<open>\<open>pow2 k\<close> is the power of two with exponent \<open>k\<close>; \<open>float_exponent x\<close> is the exponent
  \<open>e\<close> with \<open>pow2 e \<le> \<bar>x\<bar> < pow2 (e + 1)\<close>, found by halving or doubling.\<close>

definition pow2 :: "int \<Rightarrow> real" where
  "pow2 k = (if 0 \<le> k then 2 ^ nat k else 1 / 2 ^ nat (- k))"

function exponent_up :: "real \<Rightarrow> int" where
  "exponent_up x = (if 2 \<le> x then exponent_up (x / 2) + 1 else 0)"
  by pat_completeness auto
termination
proof (relation "measure (\<lambda>x. nat \<lfloor>x\<rfloor>)")
  show "wf (measure (\<lambda>x :: real. nat \<lfloor>x\<rfloor>))" by simp
next
  fix x :: real assume "2 \<le> x"
  then have "\<lfloor>x / 2\<rfloor> \<le> \<lfloor>x - 1\<rfloor>" by (intro floor_mono) simp
  moreover have "1 \<le> \<lfloor>x\<rfloor>" using \<open>2 \<le> x\<close> by linarith
  ultimately show "(x / 2, x) \<in> measure (\<lambda>x. nat \<lfloor>x\<rfloor>)" by simp
qed

function exponent_down :: "real \<Rightarrow> int" where
  "exponent_down x = (if 0 < x \<and> x < 1 then exponent_down (2 * x) - 1 else 0)"
  by pat_completeness auto
termination
proof (relation "measure (\<lambda>x. nat \<lceil>1 / x\<rceil>)")
  show "wf (measure (\<lambda>x :: real. nat \<lceil>1 / x\<rceil>))" by simp
next
  fix x :: real assume a: "0 < x \<and> x < 1"
  define y where "y = 1 / x"
  have y: "1 < y" using a by (simp add: y_def)
  have half: "1 / (2 * x) = y / 2" by (simp add: y_def)
  have c1: "y \<le> real_of_int \<lceil>y\<rceil>" by (rule le_of_int_ceiling)
  have "1 < \<lceil>y\<rceil>" using y by (simp add: less_ceiling_iff)
  then have "2 \<le> \<lceil>y\<rceil>" by simp
  then have c2: "2 \<le> real_of_int \<lceil>y\<rceil>" by linarith
  have "y / 2 \<le> real_of_int \<lceil>y\<rceil> - 1" using c1 c2 by linarith
  then have "y / 2 \<le> real_of_int (\<lceil>y\<rceil> - 1)" by simp
  then have "\<lceil>y / 2\<rceil> \<le> \<lceil>y\<rceil> - 1" by (simp only: ceiling_le_iff)
  moreover have "0 < \<lceil>y\<rceil>" using y by linarith
  ultimately show "(2 * x, x) \<in> measure (\<lambda>x. nat \<lceil>1 / x\<rceil>)"
    unfolding half y_def [symmetric] by (simp add: half y_def [symmetric])
qed

declare exponent_up.simps [simp del] exponent_down.simps [simp del]

definition float_exponent :: "real \<Rightarrow> int" where
  "float_exponent x = (if 1 \<le> \<bar>x\<bar> then exponent_up \<bar>x\<bar> else exponent_down \<bar>x\<bar>)"

definition round_even :: "real \<Rightarrow> int" where
  "round_even y =
     (let f = \<lfloor>y\<rfloor> in
      if y - real_of_int f < 1 / 2 then f
      else if 1 / 2 < y - real_of_int f then f + 1
      else if even f then f else f + 1)"

definition max_finite :: "int \<Rightarrow> int \<Rightarrow> real" where
  "max_finite p emax = (2 - pow2 (1 - p)) * pow2 emax"

definition fl_round :: "int \<Rightarrow> int \<Rightarrow> int \<Rightarrow> real \<Rightarrow> fp" where
  "fl_round p emin emax x =
     (if x = 0 then Finite 0
      else
        (let q = pow2 (max (float_exponent x) emin - (p - 1));
             r = real_of_int (round_even (x / q)) * q
         in if max_finite p emax < \<bar>r\<bar> then (if 0 < x then PInf else NInf) else Finite r))"

definition round_double :: "real \<Rightarrow> fp" where
  "round_double = fl_round 53 (- 1022) 1023"

definition round_float :: "real \<Rightarrow> fp" where
  "round_float = fl_round 24 (- 126) 127"

text \<open>The comparison \<^verbatim>\<open><\<close> is false when an operand is NaN; \<^verbatim>\<open>std::min(a, b)\<close> is
  \<^verbatim>\<open>(b < a) ? b : a\<close>.  The arithmetic operations take the rounding of their result type.\<close>

fun fp_less :: "fp \<Rightarrow> fp \<Rightarrow> bool" where
  "fp_less (Finite x) (Finite y) = (x < y)"
| "fp_less (Finite x) PInf = True"
| "fp_less NInf (Finite y) = True"
| "fp_less NInf PInf = True"
| "fp_less a b = False"

definition std_min :: "fp \<Rightarrow> fp \<Rightarrow> fp" where
  "std_min a b = (if fp_less b a then b else a)"

fun fp_mul :: "(real \<Rightarrow> fp) \<Rightarrow> fp \<Rightarrow> fp \<Rightarrow> fp" where
  "fp_mul rnd (Finite x) (Finite y) = rnd (x * y)"
| "fp_mul rnd NaN b = NaN"
| "fp_mul rnd a NaN = NaN"
| "fp_mul rnd PInf (Finite y) = (if y = 0 then NaN else if 0 < y then PInf else NInf)"
| "fp_mul rnd NInf (Finite y) = (if y = 0 then NaN else if 0 < y then NInf else PInf)"
| "fp_mul rnd (Finite x) PInf = (if x = 0 then NaN else if 0 < x then PInf else NInf)"
| "fp_mul rnd (Finite x) NInf = (if x = 0 then NaN else if 0 < x then NInf else PInf)"
| "fp_mul rnd PInf PInf = PInf"
| "fp_mul rnd PInf NInf = NInf"
| "fp_mul rnd NInf PInf = NInf"
| "fp_mul rnd NInf NInf = PInf"

fun fp_div :: "(real \<Rightarrow> fp) \<Rightarrow> fp \<Rightarrow> fp \<Rightarrow> fp" where
  "fp_div rnd (Finite x) (Finite y) =
     (if y = 0 then (if x = 0 then NaN else if 0 < x then PInf else NInf) else rnd (x / y))"
| "fp_div rnd NaN b = NaN"
| "fp_div rnd a NaN = NaN"
| "fp_div rnd (Finite x) PInf = Finite 0"
| "fp_div rnd (Finite x) NInf = Finite 0"
| "fp_div rnd PInf (Finite y) = (if 0 \<le> y then PInf else NInf)"
| "fp_div rnd NInf (Finite y) = (if 0 \<le> y then NInf else PInf)"
| "fp_div rnd PInf PInf = NaN"
| "fp_div rnd PInf NInf = NaN"
| "fp_div rnd NInf PInf = NaN"
| "fp_div rnd NInf NInf = NaN"

fun fp_sub :: "(real \<Rightarrow> fp) \<Rightarrow> fp \<Rightarrow> fp \<Rightarrow> fp" where
  "fp_sub rnd (Finite x) (Finite y) = rnd (x - y)"
| "fp_sub rnd NaN b = NaN"
| "fp_sub rnd a NaN = NaN"
| "fp_sub rnd (Finite x) PInf = NInf"
| "fp_sub rnd (Finite x) NInf = PInf"
| "fp_sub rnd PInf (Finite y) = PInf"
| "fp_sub rnd NInf (Finite y) = NInf"
| "fp_sub rnd PInf NInf = PInf"
| "fp_sub rnd NInf PInf = NInf"
| "fp_sub rnd PInf PInf = NaN"
| "fp_sub rnd NInf NInf = NaN"

text \<open>Conversions from \<^verbatim>\<open>int\<close> round like every operation (a \<^verbatim>\<open>double\<close> holds every 32-bit
  value exactly, a \<^verbatim>\<open>float\<close> does not).\<close>

definition double_of_int :: "int \<Rightarrow> fp" where
  "double_of_int i = round_double (real_of_int i)"

definition float_of_int :: "int \<Rightarrow> fp" where
  "float_of_int i = round_float (real_of_int i)"

section \<open>Position resolver: \<^verbatim>\<open>calculate_focal_point\<close>\<close>

text \<open>
  \<^verbatim>\<open>std::round\<close> rounds to the nearest integer, halfway cases away from zero, and leaves
  an infinity or NaN as it is; its result is a value of the type.  \<^verbatim>\<open>static_cast<int>\<close>
  truncates toward zero; for NaN, an infinity or a value whose truncation is no 32-bit
  \<^verbatim>\<open>int\<close> the behaviour is undefined, and the model delivers the parameter \<open>indefinite\<close>
  there.  \<^verbatim>\<open>std::clamp(v, lo, hi)\<close> is \<^verbatim>\<open>(v < lo) ? lo : (hi < v) ? hi : v\<close>.
\<close>

definition std_round :: "real \<Rightarrow> real" where
  "std_round x = (if 0 \<le> x then of_int \<lfloor>x + 1 / 2\<rfloor> else of_int \<lceil>x - 1 / 2\<rceil>)"

definition static_cast_int :: "real \<Rightarrow> int" where
  "static_cast_int x = (if 0 \<le> x then \<lfloor>x\<rfloor> else \<lceil>x\<rceil>)"

definition std_clamp :: "int \<Rightarrow> int \<Rightarrow> int \<Rightarrow> int" where
  "std_clamp v lo hi = (if v < lo then lo else if hi < v then hi else v)"

fun fp_round :: "fp \<Rightarrow> fp" where
  "fp_round (Finite x) = Finite (std_round x)"
| "fp_round a = a"

fun fp_to_int :: "int \<Rightarrow> fp \<Rightarrow> int" where
  "fp_to_int indefinite (Finite x) =
     (if - (2 ^ 31) - 1 < x \<and> x < 2 ^ 31 then static_cast_int x else indefinite)"
| "fp_to_int indefinite a = indefinite"

text \<open>The locals of \<^verbatim>\<open>calculate_focal_point\<close>, one definition for each initialiser:
  \<^verbatim>\<open>factor\<close>, \<^verbatim>\<open>center_x\<close> and \<^verbatim>\<open>center_y\<close>, and \<^verbatim>\<open>left\<close> and \<^verbatim>\<open>top\<close> before the clamp.
  \<^verbatim>\<open>fpx * in_width\<close> is a \<^verbatim>\<open>float\<close> product (the \<^verbatim>\<open>int\<close> is converted to \<^verbatim>\<open>float\<close>); the
  division by \<^verbatim>\<open>factor\<close> and the subtraction are \<^verbatim>\<open>double\<close> operations.\<close>

definition focal_factor :: "int \<Rightarrow> int \<Rightarrow> int \<Rightarrow> int \<Rightarrow> fp" where
  "focal_factor in_width in_height target_width target_height =
     (let ratio_x = fp_div round_double (double_of_int in_width) (double_of_int target_width);
          ratio_y = fp_div round_double (double_of_int in_height) (double_of_int target_height)
      in std_min ratio_x ratio_y)"

definition focal_center :: "fp \<Rightarrow> int \<Rightarrow> fp \<Rightarrow> fp" where
  "focal_center focal in_dim factor =
     fp_div round_double (fp_mul round_float focal (float_of_int in_dim)) factor"

definition focal_candidate :: "int \<Rightarrow> fp \<Rightarrow> int \<Rightarrow> int" where
  "focal_candidate indefinite center target_dim =
     fp_to_int indefinite
       (fp_round (fp_sub round_double center
          (fp_div round_double (double_of_int target_dim) (Finite 2))))"

definition calculate_focal_point ::
  "int \<Rightarrow> fp \<Rightarrow> fp \<Rightarrow> int \<Rightarrow> int \<Rightarrow> int \<Rightarrow> int \<Rightarrow> int \<Rightarrow> int \<Rightarrow> int \<times> int" where
  "calculate_focal_point indefinite fpx fpy in_width in_height target_width target_height
       image_width image_height =
     (let factor = focal_factor in_width in_height target_width target_height;
          center_x = focal_center fpx in_width factor;
          center_y = focal_center fpy in_height factor;
          left = focal_candidate indefinite center_x target_width;
          left = std_clamp left 0 (image_width - target_width);
          top' = focal_candidate indefinite center_y target_height;
          top' = std_clamp top' 0 (image_height - target_height)
      in (left, top'))"

text \<open>The spec's words: round half away from zero, and clamp into an interval.\<close>

definition round_half_away :: "real \<Rightarrow> int" where
  "round_half_away x = (if x < 0 then - \<lfloor>- x + 1 / 2\<rfloor> else \<lfloor>x + 1 / 2\<rfloor>)"



section \<open>Multi-page crop reassembler\<close>

text \<open>
  A \<^verbatim>\<open>VImage\<close> is a node of the backend's lazy pipeline: a decoded source of some width
  and height, a region extracted from an image, or a grid of images joined with a number
  of columns.  The backend (libvips, outside the repository) is modelled at its interface:
  \<^verbatim>\<open>extract_area\<close> raises an error unless the region is non-empty and inside its input;
  \<^verbatim>\<open>arrayjoin\<close> raises one for an empty array, and lays the images out on a grid whose cells
  have the largest width and the largest height of the inputs.
\<close>

datatype exn = VError string | LengthError

datatype VImage =
  Decoded int int
  | ExtractArea VImage int int int int
  | ArrayJoin "VImage list" int

fun max_list :: "int list \<Rightarrow> int" where
  "max_list [] = 0"
| "max_list [x] = x"
| "max_list (x # y # ys) = max x (max_list (y # ys))"

fun image_width :: "VImage \<Rightarrow> int" where
  "image_width (Decoded w h) = w"
| "image_width (ExtractArea img left top' w h) = w"
| "image_width (ArrayJoin imgs across) =
     max_list (map image_width imgs) * min across (int (length imgs))"

fun image_height :: "VImage \<Rightarrow> int" where
  "image_height (Decoded w h) = h"
| "image_height (ExtractArea img left top' w h) = h"
| "image_height (ArrayJoin imgs across) =
     max_list (map image_height imgs) * ((int (length imgs) + across - 1) div across)"

definition extract_area :: "VImage \<Rightarrow> int \<Rightarrow> int \<Rightarrow> int \<Rightarrow> int \<Rightarrow> exn + VImage" where
  "extract_area img left top' width height =
     (if left + width > image_width img \<or> top' + height > image_height img
         \<or> left < 0 \<or> top' < 0 \<or> width \<le> 0 \<or> height \<le> 0
      then Inl (VError ''extract_area: bad extract area'')
      else Inr (ExtractArea img left top' width height))"

definition arrayjoin :: "VImage list \<Rightarrow> int \<Rightarrow> exn + VImage" where
  "arrayjoin imgs across =
     (if imgs = [] \<or> across < 1 then Inl (VError ''arrayjoin: bad parameters'')
      else Inr (ArrayJoin imgs across))"

text \<open>The loop of \<^verbatim>\<open>crop_multi_page\<close>: \<^verbatim>\<open>i\<close> counts up to \<^verbatim>\<open>n_pages\<close>, \<^verbatim>\<open>pages\<close> grows by
  \<^verbatim>\<open>push_back\<close>, and an error raised by an extraction leaves the function.\<close>

function crop_pages ::
  "VImage \<Rightarrow> int \<Rightarrow> int \<Rightarrow> int \<Rightarrow> int \<Rightarrow> int \<Rightarrow> int \<Rightarrow> int \<Rightarrow> VImage list \<Rightarrow> exn + VImage list" where
  "crop_pages img left top' width height n_pages page_height i pages =
     (if i < n_pages then
        (case extract_area img left (page_height * i + top') width height of
           Inl e \<Rightarrow> Inl e
         | Inr page \<Rightarrow>
             crop_pages img left top' width height n_pages page_height (i + 1) (pages @ [page]))
      else Inr pages)"
  by pat_completeness auto
termination
  by (relation "measure (\<lambda>(img, left, top', width, height, n_pages, page_height, i, pages).
        nat (n_pages - i))") auto

declare crop_pages.simps [simp del]

text \<open>\<^verbatim>\<open>pages.reserve(n_pages)\<close> converts a negative count to a size beyond
  \<^verbatim>\<open>max_size()\<close> and throws \<^verbatim>\<open>std::length_error\<close>.\<close>

definition crop_multi_page ::
  "VImage \<Rightarrow> int \<Rightarrow> int \<Rightarrow> int \<Rightarrow> int \<Rightarrow> int \<Rightarrow> int \<Rightarrow> exn + VImage" where
  "crop_multi_page img left top' width height n_pages page_height =
     (if top' = 0 \<and> height = page_height then
        extract_area img left 0 width (image_height img)
      else if n_pages < 0 then Inl LengthError
      else
        (case crop_pages img left top' width height n_pages page_height 0 [] of
           Inl e \<Rightarrow> Inl e
         | Inr pages \<Rightarrow> arrayjoin pages 1))"

text \<open>The spec's words: the region of page \<open>i\<close>, the pages in their original order, and
  the first failing extraction failing the whole.\<close>

definition page_region :: "VImage \<Rightarrow> int \<Rightarrow> int \<Rightarrow> int \<Rightarrow> int \<Rightarrow> int \<Rightarrow> nat \<Rightarrow> exn + VImage" where
  "page_region img left top' width height page_height i =
     extract_area img left (page_height * int i + top') width height"

fun all_or_first_error :: "(exn + 'a) list \<Rightarrow> exn + 'a list" where
  "all_or_first_error [] = Inr []"
| "all_or_first_error (Inl e # rs) = Inl e"
| "all_or_first_error (Inr x # rs) =
     (case all_or_first_error rs of Inl e \<Rightarrow> Inl e | Inr xs \<Rightarrow> Inr (x # xs))"

definition join_pages :: "exn + VImage list \<Rightarrow> exn + VImage" where
  "join_pages r = (case r of Inl e \<Rightarrow> Inl e | Inr pages \<Rightarrow> arrayjoin pages 1)"

section \<open>Metadata introspector\<close>

text \<open>
  The part of a \<^verbatim>\<open>VImage\<close> that the introspector reads: the header values \<open>Xsize\<close>, \<open>Ysize\<close>
  and \<open>Bands\<close> behind
  \<^verbatim>\<open>width()\<close>, \<^verbatim>\<open>height()\<close>, \<^verbatim>\<open>bands()\<close>, \<^verbatim>\<open>xres()\<close> and \<^verbatim>\<open>has_alpha()\<close>, the nicknames
  that \<^verbatim>\<open>vips_enum_nick\<close> gives for \<^verbatim>\<open>interpretation()\<close> and \<^verbatim>\<open>format()\<close>, and the metadata
  fields by name.  A field holds an integer, a string or an array of integers;
  \<^verbatim>\<open>get_typeof\<close> is 0 for an absent field and the type's identifier otherwise, and a typed
  getter raises an error when the field is absent or of another type.  \<^verbatim>\<open>xres\<close> is a
  \<^verbatim>\<open>double\<close>, idealised as a real number.
\<close>

datatype GValue = GInt int | GString string | GArrayInt "int list"

record ImageHeader =
  Xsize :: int
  Ysize :: int
  Bands :: int
  interpretation_nick :: string
  format_nick :: string
  xres :: real
  has_alpha :: bool
  meta :: "string \<Rightarrow> GValue option"

fun gtype :: "GValue \<Rightarrow> nat" where
  "gtype (GInt i) = 24"
| "gtype (GString s) = 64"
| "gtype (GArrayInt xs) = 65"

definition get_typeof :: "ImageHeader \<Rightarrow> string \<Rightarrow> nat" where
  "get_typeof img name = (case meta img name of None \<Rightarrow> 0 | Some v \<Rightarrow> gtype v)"

definition get_int :: "ImageHeader \<Rightarrow> string \<Rightarrow> exn + int" where
  "get_int img name =
     (case meta img name of Some (GInt i) \<Rightarrow> Inr i | _ \<Rightarrow> Inl (VError name))"

definition get_string :: "ImageHeader \<Rightarrow> string \<Rightarrow> exn + string" where
  "get_string img name =
     (case meta img name of Some (GString s) \<Rightarrow> Inr s | _ \<Rightarrow> Inl (VError name))"

definition get_array_int :: "ImageHeader \<Rightarrow> string \<Rightarrow> exn + int list" where
  "get_array_int img name =
     (case meta img name of Some (GArrayInt xs) \<Rightarrow> Inr xs | _ \<Rightarrow> Inl (VError name))"

definition VIPS_META_ICC_NAME :: string where
  "VIPS_META_ICC_NAME = ''icc-profile-data''"

definition VIPS_META_ORIENTATION :: string where
  "VIPS_META_ORIENTATION = ''orientation''"

definition VIPS_META_N_PAGES :: string where
  "VIPS_META_N_PAGES = ''n-pages''"

definition VIPS_META_PAGE_HEIGHT :: string where
  "VIPS_META_PAGE_HEIGHT = ''page-height''"

definition has_profile :: "ImageHeader \<Rightarrow> bool" where
  "has_profile img = (get_typeof img VIPS_META_ICC_NAME \<noteq> 0)"

definition has_density :: "ImageHeader \<Rightarrow> bool" where
  "has_density img = (xres img > 1)"

definition get_density :: "ImageHeader \<Rightarrow> int" where
  "get_density img = static_cast_int (std_round (xres img * (254 / 10)))"

definition exif_orientation :: "ImageHeader \<Rightarrow> exn + int" where
  "exif_orientation img =
     (if get_typeof img VIPS_META_ORIENTATION \<noteq> 0 then get_int img VIPS_META_ORIENTATION
      else Inr 0)"

text \<open>An exception leaves \<^verbatim>\<open>image_to_json\<close> at once; \<open>bind_exn\<close> sequences two steps.\<close>

definition bind_exn :: "exn + 'a \<Rightarrow> ('a \<Rightarrow> exn + 'b) \<Rightarrow> exn + 'b" where
  "bind_exn r f = (case r of Inl e \<Rightarrow> Inl e | Inr x \<Rightarrow> f x)"

text \<open>The statement \<^verbatim>\<open>if (image.get_typeof(name) != 0) json << "key": << image.get_int(name) << ","\<close>,
  which \<^verbatim>\<open>image_to_json\<close> writes five times.\<close>

definition put_int_if_present :: "ImageHeader \<Rightarrow> string \<Rightarrow> string \<Rightarrow> string \<Rightarrow> exn + string" where
  \<open>put_int_if_present img name key json =
     (if get_typeof img name \<noteq> 0 then
        bind_exn (get_int img name) (\<lambda>v. Inr (json @ ''"'' @ key @ ''":'' @ show_int v @ '',''))
      else Inr json)\<close>

text \<open>The loop over \<^verbatim>\<open>delays\<close>: each delay, and a comma after every delay but the last.\<close>

fun put_delays :: "int list \<Rightarrow> string" where
  "put_delays [] = []"
| "put_delays [delay] = show_int delay"
| "put_delays (delay # next # delays) = show_int delay @ '','' @ put_delays (next # delays)"

definition image_to_json :: "ImageHeader \<Rightarrow> ImageType \<Rightarrow> exn + string" where
  \<open>image_to_json img image_type =
     (let json = ''{''
            @ ''"format":"'' @ image_type_id image_type @ ''",''
            @ ''"width":'' @ show_int (Xsize img) @ '',''
            @ ''"height":'' @ show_int (Ysize img) @ '',''
            @ ''"space":"'' @ interpretation_nick img @ ''",''
            @ ''"channels":'' @ show_int (Bands img) @ '',''
            @ ''"depth":"'' @ format_nick img @ ''",'';
          json = (if has_density img
                  then json @ ''"density":'' @ show_int (get_density img) @ '',''
                  else json)
      in
      bind_exn
        (if get_typeof img ''jpeg-chroma-subsample'' \<noteq> 0 then
           bind_exn (get_string img ''jpeg-chroma-subsample'')
             (\<lambda>s. Inr (json @ ''"chromaSubsampling":"'' @ s @ ''",''))
         else Inr json) (\<lambda>json.
      let json = json @ ''"isProgressive":''
            @ (if get_typeof img ''interlaced'' \<noteq> 0 then ''true'' else ''false'') @ '',''
      in
      bind_exn (put_int_if_present img ''palette-bit-depth'' ''paletteBitDepth'' json) (\<lambda>json.
      bind_exn (put_int_if_present img VIPS_META_N_PAGES ''pages'' json) (\<lambda>json.
      bind_exn (put_int_if_present img VIPS_META_PAGE_HEIGHT ''pageHeight'' json) (\<lambda>json.
      bind_exn (put_int_if_present img ''loop'' ''loop'' json) (\<lambda>json.
      bind_exn
        (if get_typeof img ''delay'' \<noteq> 0 then
           bind_exn (get_array_int img ''delay'')
             (\<lambda>delays. Inr (json @ ''"delay":['' @ put_delays delays @ ''],''))
         else Inr json) (\<lambda>json.
      bind_exn (put_int_if_present img ''heif-primary'' ''pagePrimary'' json) (\<lambda>json.
      bind_exn (exif_orientation img) (\<lambda>orientation.
      Inr (json
            @ ''"hasProfile":'' @ (if has_profile img then ''true'' else ''false'') @ '',''
            @ ''"hasAlpha":'' @ (if has_alpha img then ''true'' else ''false'') @ '',''
            @ ''"orientation":'' @ show_int orientation @ ''}''))))))))))\<close>

text \<open>
  The spec's words: the descriptive document is an ordered list of keys with their
  rendered values; a conditional key is in it when its backing data is present; the
  document is written as one JSON object, the members in the order of the list.
\<close>

definition key_order :: "string list" where
  "key_order =
     [''format'', ''width'', ''height'', ''space'', ''channels'', ''depth'', ''density'',
      ''chromaSubsampling'', ''isProgressive'', ''paletteBitDepth'', ''pages'',
      ''pageHeight'', ''loop'', ''delay'', ''pagePrimary'', ''hasProfile'', ''hasAlpha'',
      ''orientation'']"

definition backing_tag :: "string \<Rightarrow> string option" where
  "backing_tag key =
     (if key = ''chromaSubsampling'' then Some ''jpeg-chroma-subsample''
      else if key = ''paletteBitDepth'' then Some ''palette-bit-depth''
      else if key = ''pages'' then Some ''n-pages''
      else if key = ''pageHeight'' then Some ''page-height''
      else if key = ''loop'' then Some ''loop''
      else if key = ''delay'' then Some ''delay''
      else if key = ''pagePrimary'' then Some ''heif-primary''
      else None)"

definition key_present :: "ImageHeader \<Rightarrow> string \<Rightarrow> bool" where
  "key_present img key =
     (if key = ''density'' then xres img > 1
      else (case backing_tag key of None \<Rightarrow> True | Some tag \<Rightarrow> meta img tag \<noteq> None))"

definition the_int :: "GValue option \<Rightarrow> int" where
  "the_int v = (case v of Some (GInt i) \<Rightarrow> i | _ \<Rightarrow> 0)"

definition the_string :: "GValue option \<Rightarrow> string" where
  "the_string v = (case v of Some (GString s) \<Rightarrow> s | _ \<Rightarrow> [])"

definition the_array :: "GValue option \<Rightarrow> int list" where
  "the_array v = (case v of Some (GArrayInt xs) \<Rightarrow> xs | _ \<Rightarrow> [])"

definition json_bool :: "bool \<Rightarrow> string" where
  "json_bool b = (if b then ''true'' else ''false'')"

definition json_string :: "string \<Rightarrow> string" where
  \<open>json_string s = ''"'' @ s @ ''"''\<close>

definition key_value :: "ImageHeader \<Rightarrow> ImageType \<Rightarrow> string \<Rightarrow> string" where
  "key_value img image_type key =
     (if key = ''format'' then json_string (image_type_id image_type)
      else if key = ''width'' then show_int (Xsize img)
      else if key = ''height'' then show_int (Ysize img)
      else if key = ''space'' then json_string (interpretation_nick img)
      else if key = ''channels'' then show_int (Bands img)
      else if key = ''depth'' then json_string (format_nick img)
      else if key = ''density'' then show_int (round_half_away (xres img * (254 / 10)))
      else if key = ''chromaSubsampling''
        then json_string (the_string (meta img ''jpeg-chroma-subsample''))
      else if key = ''isProgressive'' then json_bool (meta img ''interlaced'' \<noteq> None)
      else if key = ''paletteBitDepth'' then show_int (the_int (meta img ''palette-bit-depth''))
      else if key = ''pages'' then show_int (the_int (meta img ''n-pages''))
      else if key = ''pageHeight'' then show_int (the_int (meta img ''page-height''))
      else if key = ''loop'' then show_int (the_int (meta img ''loop''))
      else if key = ''delay''
        then ''['' @ join_with '','' (map show_int (the_array (meta img ''delay''))) @ '']''
      else if key = ''pagePrimary'' then show_int (the_int (meta img ''heif-primary''))
      else if key = ''hasProfile'' then json_bool (meta img ''icc-profile-data'' \<noteq> None)
      else if key = ''hasAlpha'' then json_bool (has_alpha img)
      else show_int (the_int (meta img ''orientation'')))"

definition json_member :: "ImageHeader \<Rightarrow> ImageType \<Rightarrow> string \<Rightarrow> string" where
  \<open>json_member img image_type key = ''"'' @ key @ ''":'' @ key_value img image_type key\<close>

definition json_object :: "string list \<Rightarrow> string" where
  "json_object members = ''{'' @ join_with '','' members @ ''}''"

definition descriptive_document :: "ImageHeader \<Rightarrow> ImageType \<Rightarrow> string" where
  "descriptive_document img image_type =
     json_object (map (json_member img image_type) (filter (key_present img) key_order))"

text \<open>The metadata fields that \<^verbatim>\<open>image_to_json\<close> reads with a typed getter hold, when
  present, the type that libvips gives them.\<close>

definition typed_as :: "ImageHeader \<Rightarrow> string \<Rightarrow> nat \<Rightarrow> bool" where
  "typed_as img name t = (case meta img name of None \<Rightarrow> True | Some v \<Rightarrow> gtype v = t)"

definition well_typed :: "ImageHeader \<Rightarrow> bool" where
  "well_typed img =
     (typed_as img ''jpeg-chroma-subsample'' 64 \<and> typed_as img ''palette-bit-depth'' 24
      \<and> typed_as img ''n-pages'' 24 \<and> typed_as img ''page-height'' 24
      \<and> typed_as img ''loop'' 24 \<and> typed_as img ''delay'' 65
      \<and> typed_as img ''heif-primary'' 24 \<and> typed_as img ''orientation'' 24)"

text \<open>The text that a key contributes to the document before the last member: the
  member and a comma when the key is present, nothing otherwise.\<close>

definition member_segment :: "ImageHeader \<Rightarrow> ImageType \<Rightarrow> string \<Rightarrow> string" where
  "member_segment img image_type key =
     (if key_present img key then json_member img image_type key @ '','' else [])"

section \<open>Properties of the position resolver\<close>

lemma int_div_2: "int_div d 2 = half_toward_zero d"
  by (cases "d = 0") (auto simp: int_div_def half_toward_zero_def sgn_if)

text \<open>
  Claim C5.  For all input and output sizes and every anchor, \<open>calculate_position\<close>
  returns the offsets of the spec's table: TopLeft (0, 0); Top (dx/2, 0); TopRight (dx, 0);
  Left (0, dy/2); Centre and every unlisted anchor (dx/2, dy/2); Right (dx, dy/2);
  BottomLeft (0, dy); Bottom (dx/2, dy); BottomRight (dx, dy), where dx = outW - inW,
  dy = outH - inH and the halves are truncated toward zero (a delta of -3 gives -1, where
  flooring would give -2).  With inW = inH = 50 and outW = outH = 100: TopLeft gives (0, 0),
  Centre (25, 25), BottomRight (50, 50), Right (50, 25).
\<close>

theorem calculate_position_table:
  "calculate_position iw ih ow oh TopLeft = (0, 0)
   \<and> calculate_position iw ih ow oh Top = (half_toward_zero (ow - iw), 0)
   \<and> calculate_position iw ih ow oh TopRight = (ow - iw, 0)
   \<and> calculate_position iw ih ow oh Left = (0, half_toward_zero (oh - ih))
   \<and> calculate_position iw ih ow oh Centre
       = (half_toward_zero (ow - iw), half_toward_zero (oh - ih))
   \<and> calculate_position iw ih ow oh (OtherPosition k)
       = (half_toward_zero (ow - iw), half_toward_zero (oh - ih))
   \<and> calculate_position iw ih ow oh Right = (ow - iw, half_toward_zero (oh - ih))
   \<and> calculate_position iw ih ow oh BottomLeft = (0, oh - ih)
   \<and> calculate_position iw ih ow oh Bottom = (half_toward_zero (ow - iw), oh - ih)
   \<and> calculate_position iw ih ow oh BottomRight = (ow - iw, oh - ih)
   \<and> calculate_position 50 50 100 100 TopLeft = (0, 0)
   \<and> calculate_position 50 50 100 100 Centre = (25, 25)
   \<and> calculate_position 50 50 100 100 BottomRight = (50, 50)
   \<and> calculate_position 50 50 100 100 Right = (50, 25)
   \<and> calculate_position 5 5 2 2 Centre = (- 1, - 1)
   \<and> (- 3 :: int) div 2 = - 2"
  by (simp add: int_div_2) (simp add: half_toward_zero_def)

section \<open>Properties of the saver list\<close>

lemma ucast_bit: "i < 32 \<Longrightarrow> (ucast (2 ^ i :: 32 word) :: uintptr) = 2 ^ i"
  by (rule bit_word_eqI) (auto simp: bit_simps)

lemma and_bit: "(msk AND (2 ^ i :: uintptr) \<noteq> 0) = bit msk i"
  by (metis and_exp_eq_0_iff_not_bit)

lemma join_with_snoc:
  "join_with sep (xs @ [s]) = (if xs = [] then s else join_with sep xs @ sep @ s)"
  by (induction sep xs rule: join_with.induct) auto

lemma join_with_empty_iff:
  "[] \<notin> set xs \<Longrightarrow> join_with sep xs = [] \<longleftrightarrow> xs = []"
  by (induction sep xs rule: join_with.induct) auto

lemma saver_nonempty: "saver_of_bit output_of i \<noteq> []"
  by (cases "output_of (2 ^ i)") (simp_all add: saver_of_bit_def)

lemma savers_upto_empty_iff:
  "savers_upto output_of msk i = [] \<longleftrightarrow> filter (bit msk) [1..<i] = []"
proof -
  have "[] \<notin> set (map (saver_of_bit output_of) (filter (bit msk) [1..<i]))"
    using saver_nonempty [of output_of] by (metis (no_types, lifting) imageE list.set_map)
  then show ?thesis
    unfolding savers_upto_def by (simp add: join_with_empty_iff)
qed

lemma savers_upto_Suc:
  "1 \<le> i \<Longrightarrow> savers_upto output_of msk (Suc i) =
     (if bit msk i then
        (if savers_upto output_of msk i = [] then saver_of_bit output_of i
         else savers_upto output_of msk i @ '', '' @ saver_of_bit output_of i)
      else savers_upto output_of msk i)"
  unfolding savers_upto_empty_iff
  by (simp add: savers_upto_def join_with_snoc)

lemma savers_loop_invariant:
  "1 \<le> i \<Longrightarrow> i \<le> 8 \<Longrightarrow>
   savers_loop output_of msk i (savers_upto output_of msk i) = savers_upto output_of msk 8"
proof (induction "8 - i" arbitrary: i)
  case 0
  then have "i = 8" by simp
  then show ?case by (simp add: savers_loop.simps)
next
  case (Suc k)
  then have i: "i \<le> 7" "1 \<le> i" "k = 8 - Suc i" "Suc i \<le> 8" "1 \<le> Suc i" by simp_all
  have step: "savers_loop output_of msk i (savers_upto output_of msk i)
        = savers_loop output_of msk (Suc i) (savers_upto output_of msk (Suc i))"
    using i(1,2)
    by (subst savers_loop.simps)
       (simp add: and_bit ucast_bit savers_upto_Suc saver_of_bit_def Let_def)
  show ?case
    unfolding step using Suc.hyps(1) [OF i(3) i(5) i(4)] .
qed

lemma savers_eq: "supported_savers_string output_of msk = savers_spec output_of msk"
proof -
  have "[1..<8] = [1, 2, 3, 4, 5, 6, 7 :: nat]" by code_simp
  moreover have "savers_upto output_of msk 1 = []" by (simp add: savers_upto_def)
  ultimately show ?thesis
    using savers_loop_invariant [of 1 output_of msk]
    by (simp add: supported_savers_string_def savers_spec_def savers_upto_def)
qed

text \<open>
  Claim C7.  For every mask, \<open>supported_savers_string\<close> visits the bit indices 1 to 7 in
  ascending order and joins with \<open>'', ''\<close> the extension, without its leading dot, of the
  \<open>Output\<close> value \<open>1 << i\<close> of each set bit \<open>i\<close>; the empty mask gives the empty string;
  where bit 1 is Jpeg and bit 3 is Avif, the mask \<open>(1 << 1) | (1 << 3)\<close> gives
  \<open>''jpg, avif''\<close>.
\<close>

theorem supported_savers_string_joined:
  "supported_savers_string output_of msk
     = join_with '', ''
         (map (\<lambda>i. drop 1 (determine_image_extension (output_of (push_bit i 1))))
            (filter (bit msk) [1, 2, 3, 4, 5, 6, 7]))
   \<and> supported_savers_string output_of 0 = []
   \<and> (output_of (push_bit 1 1) = OJpeg \<and> output_of (push_bit 3 1) = OAvif
        \<longrightarrow> supported_savers_string output_of (push_bit 1 1 OR push_bit 3 1) = ''jpg, avif'')"
proof -
  have eq: "saver_of_bit output_of = (\<lambda>i. drop 1 (determine_image_extension (output_of (push_bit i 1))))"
    by (rule ext) (simp add: saver_of_bit_def)
  have general: "supported_savers_string output_of msk
     = join_with '', ''
         (map (\<lambda>i. drop 1 (determine_image_extension (output_of (push_bit i 1))))
            (filter (bit msk) [1, 2, 3, 4, 5, 6, 7]))" for msk
    unfolding savers_eq savers_spec_def eq ..
  have empty: "supported_savers_string output_of 0 = []"
    by (simp add: general)
  have example: "supported_savers_string output_of (push_bit 1 1 OR push_bit 3 1) = ''jpg, avif''"
    if "output_of (push_bit 1 1) = OJpeg" "output_of (push_bit 3 1) = OAvif"
  proof -
    have "(push_bit 1 1 OR push_bit 3 1 :: uintptr) = 10" by simp
    moreover have "filter (bit (10 :: uintptr)) [1, 2, 3, 4, 5, 6, 7] = [1, 3]"
      by (simp add: bit_iff_odd_drop_bit)
    moreover have "output_of 2 = OJpeg" "output_of 8 = OAvif" using that by simp_all
    ultimately show ?thesis by (simp add: general)
  qed
  show ?thesis using general empty example by blast
qed

theorem supported_savers_string_witness:
  "supported_savers_string (\<lambda>w. if w = 2 then OJpeg else if w = 8 then OAvif else OPng)
     (push_bit 1 1 OR push_bit 3 1) = ''jpg, avif''
   \<and> supported_savers_string (\<lambda>w. if w = 2 then OJpeg else if w = 8 then OAvif else OPng)
     (push_bit 3 1 OR push_bit 1 1 OR 1) = ''jpg, avif''"
proof -
  let ?f = "\<lambda>w :: uintptr. if w = 2 then OJpeg else if w = 8 then OAvif else OPng"
  have first: "supported_savers_string ?f (push_bit 1 1 OR push_bit 3 1) = ''jpg, avif''"
    using supported_savers_string_joined [of ?f 0] by simp
  have sel: "filter (bit (11 :: uintptr)) [1, 2, 3, 4, 5, 6, 7] = [1, 3]"
    by (simp add: bit_iff_odd_drop_bit)
  have "supported_savers_string ?f 11 = join_with '', ''
         (map (\<lambda>i. drop 1 (determine_image_extension (?f (push_bit i 1))))
            (filter (bit (11 :: uintptr)) [1, 2, 3, 4, 5, 6, 7]))"
    using supported_savers_string_joined [of ?f 11] by (rule conjunct1)
  also have "\<dots> = ''jpg, avif''"
    unfolding sel by simp
  finally have second: "supported_savers_string ?f 11 = ''jpg, avif''" .
  have "(push_bit 3 1 OR push_bit 1 1 OR 1 :: uintptr) = 11"
    by simp
  with first second show ?thesis by simp
qed

section \<open>Properties of the loader lookup\<close>

lemma rfind_0: "rfind s str 0 = Some 0 \<longleftrightarrow> prefix str s"
proof -
  have "prefix str s \<longleftrightarrow> take (length str) s = str"
    by (metis append_eq_conv_conj prefix_def append_take_drop_id)
  moreover have "take (length str) s = str \<Longrightarrow> length str \<le> length s"
    by (metis length_take min.absorb_iff2 nat_le_linear min.commute)
  ultimately show ?thesis by (auto simp: rfind_def)
qed

lemma determine_lookup:
  "determine_image_type v loader = lookup_prefix (loader_table (VIPS_FOREIGN_LOAD_GIF v)) loader"
  by (simp add: determine_image_type_def lookup_prefix_def loader_table_def rfind_0 matches_def)

lemma gif_cases: "VIPS_FOREIGN_LOAD_GIF v = ''VipsForeignLoadNsgif'' \<or> VIPS_FOREIGN_LOAD_GIF v = ''VipsForeignLoadGif''"
  by (simp add: VIPS_FOREIGN_LOAD_GIF_def)

lemma one_match_nsgif: "length (filter (matches loader) (loader_table ''VipsForeignLoadNsgif'')) \<le> 1"
  by (auto simp: loader_table_def matches_def elim!: prefixE)

lemma one_match_gif: "length (filter (matches loader) (loader_table ''VipsForeignLoadGif'')) \<le> 1"
  by (auto simp: loader_table_def matches_def elim!: prefixE)

text \<open>
  Claim C8.  \<open>determine_image_type\<close> is a total function of the loader string (and of
  the library version fixed at build time): its result is the type of the first entry of
  the fixed prefix table that is a prefix of the loader; at most one entry ever matches;
  exactly one of the two GIF prefixes is in the table, chosen by the version; a loader
  matching no entry gives \<open>Unknown\<close>, as \<open>''VipsForeignLoadFoo''\<close> does.
\<close>

theorem determine_image_type_by_prefix:
  "determine_image_type v loader = lookup_prefix (loader_table (VIPS_FOREIGN_LOAD_GIF v)) loader
   \<and> length (filter (matches loader) (loader_table (VIPS_FOREIGN_LOAD_GIF v))) \<le> 1
   \<and> (filter (matches loader) (loader_table (VIPS_FOREIGN_LOAD_GIF v)) = []
        \<longrightarrow> determine_image_type v loader = Unknown)
   \<and> (VIPS_VERSION_AT_LEAST v 8 11 0 \<longrightarrow>
        VIPS_FOREIGN_LOAD_GIF v = ''VipsForeignLoadNsgif''
        \<and> determine_image_type v ''VipsForeignLoadNsgifFile'' = Gif
        \<and> determine_image_type v ''VipsForeignLoadGifFile'' = Unknown)
   \<and> (\<not> VIPS_VERSION_AT_LEAST v 8 11 0 \<longrightarrow>
        VIPS_FOREIGN_LOAD_GIF v = ''VipsForeignLoadGif''
        \<and> determine_image_type v ''VipsForeignLoadGifFile'' = Gif
        \<and> determine_image_type v ''VipsForeignLoadNsgifFile'' = Unknown)
   \<and> determine_image_type v ''VipsForeignLoadFoo'' = Unknown"
proof -
  have one: "length (filter (matches loader) (loader_table (VIPS_FOREIGN_LOAD_GIF v))) \<le> 1"
    using gif_cases [of v] one_match_nsgif [of loader] one_match_gif [of loader] by auto
  have none: "determine_image_type v loader = Unknown"
    if "filter (matches loader) (loader_table (VIPS_FOREIGN_LOAD_GIF v)) = []"
  proof -
    have "find (matches loader) (loader_table (VIPS_FOREIGN_LOAD_GIF v)) = None"
      using that by (simp add: find_None_iff filter_empty_conv)
    then show ?thesis by (simp add: determine_lookup lookup_prefix_def)
  qed
  have new: "VIPS_FOREIGN_LOAD_GIF v = ''VipsForeignLoadNsgif''
        \<and> determine_image_type v ''VipsForeignLoadNsgifFile'' = Gif
        \<and> determine_image_type v ''VipsForeignLoadGifFile'' = Unknown"
    if "VIPS_VERSION_AT_LEAST v 8 11 0"
    using that by (simp add: determine_image_type_def rfind_def VIPS_FOREIGN_LOAD_GIF_def)
  have old: "VIPS_FOREIGN_LOAD_GIF v = ''VipsForeignLoadGif''
        \<and> determine_image_type v ''VipsForeignLoadGifFile'' = Gif
        \<and> determine_image_type v ''VipsForeignLoadNsgifFile'' = Unknown"
    if "\<not> VIPS_VERSION_AT_LEAST v 8 11 0"
    using that by (simp add: determine_image_type_def rfind_def VIPS_FOREIGN_LOAD_GIF_def)
  have foo: "determine_image_type v ''VipsForeignLoadFoo'' = Unknown"
    by (simp add: determine_image_type_def rfind_def VIPS_FOREIGN_LOAD_GIF_def)
  show ?thesis using determine_lookup one none new old foo by blast
qed

theorem determine_image_type_witness:
  "VIPS_VERSION_AT_LEAST \<lparr>VIPS_MAJOR_VERSION = 8, VIPS_MINOR_VERSION = 15, VIPS_MICRO_VERSION = 1\<rparr> 8 11 0
   \<and> \<not> VIPS_VERSION_AT_LEAST \<lparr>VIPS_MAJOR_VERSION = 8, VIPS_MINOR_VERSION = 10, VIPS_MICRO_VERSION = 6\<rparr> 8 11 0
   \<and> filter (matches ''VipsForeignLoadFoo'')
        (loader_table (VIPS_FOREIGN_LOAD_GIF
           \<lparr>VIPS_MAJOR_VERSION = 8, VIPS_MINOR_VERSION = 15, VIPS_MICRO_VERSION = 1\<rparr>)) = []
   \<and> determine_image_type \<lparr>VIPS_MAJOR_VERSION = 8, VIPS_MINOR_VERSION = 15, VIPS_MICRO_VERSION = 1\<rparr>
        ''VipsForeignLoadFoo'' = Unknown
   \<and> determine_image_type \<lparr>VIPS_MAJOR_VERSION = 8, VIPS_MINOR_VERSION = 15, VIPS_MICRO_VERSION = 1\<rparr>
        ''VipsForeignLoadNsgifFile'' = Gif
   \<and> determine_image_type \<lparr>VIPS_MAJOR_VERSION = 8, VIPS_MINOR_VERSION = 10, VIPS_MICRO_VERSION = 6\<rparr>
        ''VipsForeignLoadGifFile'' = Gif
   \<and> determine_image_type \<lparr>VIPS_MAJOR_VERSION = 8, VIPS_MINOR_VERSION = 10, VIPS_MICRO_VERSION = 6\<rparr>
        ''VipsForeignLoadJpegBuffer'' = Jpeg"
  using determine_image_type_by_prefix
      [of "\<lparr>VIPS_MAJOR_VERSION = 8, VIPS_MINOR_VERSION = 15, VIPS_MICRO_VERSION = 1\<rparr>"
          "''VipsForeignLoadFoo''"]
    determine_image_type_by_prefix
      [of "\<lparr>VIPS_MAJOR_VERSION = 8, VIPS_MINOR_VERSION = 10, VIPS_MICRO_VERSION = 6\<rparr>"
          "''VipsForeignLoadJpegBuffer''"]
  by (simp add: VIPS_VERSION_AT_LEAST_def VIPS_FOREIGN_LOAD_GIF_def loader_table_def
        matches_def lookup_prefix_def)

section \<open>Properties of the deadline governor\<close>

lemma cb_below: "run p < local_cells img ! timeout \<Longrightarrow> image_eval_cb img p timeout = img"
  by (simp add: image_eval_cb_def)

lemma cb_spent: "local_cells img ! timeout \<le> 0 \<Longrightarrow> image_eval_cb img p timeout = img"
  by (simp add: image_eval_cb_def)

lemma cb_trip:
  "0 < local_cells img ! timeout \<Longrightarrow> local_cells img ! timeout \<le> run p \<Longrightarrow>
   image_eval_cb img p timeout =
     img\<lparr>kill := True,
         error_buffer := error_buffer img @ ''weserv: ''
            @ timeout_message (local_cells img ! timeout) (run p) (percent p) @ [CHR 0x0A],
         local_cells := (local_cells img)[timeout := 0]\<rparr>"
  by (simp add: image_eval_cb_def vips_image_set_kill_def vips_error_def Let_def)

lemma deliver_spent:
  "local_cells img ! timeout \<le> 0 \<Longrightarrow> deliver ticks timeout img = img"
  by (induction ticks) (simp_all add: deliver_def cb_spent)

lemma deliver_below:
  "\<forall>q \<in> set ticks. run q < local_cells img ! timeout \<Longrightarrow> deliver ticks timeout img = img"
  by (induction ticks) (simp_all add: deliver_def cb_below)

lemma deliver_append:
  "deliver (xs @ ys) timeout img = deliver ys timeout (deliver xs timeout img)"
  by (simp add: deliver_def)

lemma deliver_once:
  assumes "timeout < length (local_cells img)" "0 < local_cells img ! timeout"
    "\<forall>q \<in> set before. run q < local_cells img ! timeout"
    "local_cells img ! timeout \<le> run p"
  shows "deliver (before @ [p] @ after) timeout img = image_eval_cb img p timeout"
proof -
  have "local_cells (image_eval_cb img p timeout) ! timeout = 0"
    using assms(1,2,4) by (simp add: cb_trip)
  then have "deliver after timeout (image_eval_cb img p timeout) = image_eval_cb img p timeout"
    by (simp add: deliver_spent)
  moreover have "deliver (p # after) timeout img
      = deliver after timeout (image_eval_cb img p timeout)"
    by (simp add: deliver_def)
  ultimately show ?thesis
    using assms(3) by (simp add: deliver_append deliver_below)
qed

lemma message_parts:
  "\<exists>pre mid post. timeout_message b r c = pre @ show_int r @ mid @ show_int c @ post"
  unfolding timeout_message_def
  by (metis append.assoc)

lemma setup_off: "process_timeout \<le> 0 \<Longrightarrow> setup_timeout_handler img process_timeout = img"
  by (simp add: setup_timeout_handler_def)

lemma setup_on: "0 < process_timeout \<Longrightarrow> setup_timeout_handler img process_timeout =
   img\<lparr>progress_signal := True, local_cells := local_cells img @ [process_timeout],
       eval_handlers := eval_handlers img @ [length (local_cells img)]\<rparr>"
  by (simp add: setup_timeout_handler_def g_signal_connect_eval_def vips_image_set_progress_def Let_def)

text \<open>
  Claim C1.  With a budget \<open>b > 0\<close> in the timeout cell, \<open>image_eval_cb\<close> leaves the
  state alone on a tick whose elapsed seconds are below \<open>b\<close>; on the first tick with
  elapsed seconds at least \<open>b\<close> it sets the kill flag, appends to the error buffer a
  message holding the elapsed seconds and the percentage, and stores 0 in the cell; every
  later tick changes nothing.  A sequence of ticks whose first tick at or over the budget
  is \<open>p\<close> therefore ends in the state that the single tick \<open>p\<close> produces.
\<close>

theorem image_eval_cb_trips_once:
  assumes "timeout < length (local_cells img)"
    and "local_cells img ! timeout = b"
    and "0 < b"
  shows "(run p < b \<longrightarrow> image_eval_cb img p timeout = img)
    \<and> (b \<le> run p \<longrightarrow>
          image_eval_cb img p timeout =
            img\<lparr>kill := True,
                error_buffer := error_buffer img @ ''weserv: ''
                  @ timeout_message b (run p) (percent p) @ [CHR 0x0A],
                local_cells := (local_cells img)[timeout := 0]\<rparr>
          \<and> local_cells (image_eval_cb img p timeout) ! timeout = 0
          \<and> image_eval_cb (image_eval_cb img p timeout) q timeout
              = image_eval_cb img p timeout
          \<and> deliver after timeout (image_eval_cb img p timeout)
              = image_eval_cb img p timeout)
    \<and> (\<exists>pre mid post. timeout_message b (run p) (percent p)
          = pre @ show_int (run p) @ mid @ show_int (percent p) @ post)
    \<and> ((\<forall>t \<in> set before. run t < b) \<and> b \<le> run p \<longrightarrow>
          deliver (before @ [p] @ after) timeout img = image_eval_cb img p timeout)"
proof -
  have below: "image_eval_cb img p timeout = img" if "run p < b"
    using that assms(2) by (simp add: cb_below)
  have trip: "image_eval_cb img p timeout =
            img\<lparr>kill := True,
                error_buffer := error_buffer img @ ''weserv: ''
                  @ timeout_message b (run p) (percent p) @ [CHR 0x0A],
                local_cells := (local_cells img)[timeout := 0]\<rparr>" if "b \<le> run p"
    using that assms(2,3) cb_trip [of img timeout p] by simp
  have zero: "local_cells (image_eval_cb img p timeout) ! timeout = 0" if "b \<le> run p"
    using trip [OF that] assms(1) by simp
  have again: "image_eval_cb (image_eval_cb img p timeout) q timeout
      = image_eval_cb img p timeout" if "b \<le> run p"
    using zero [OF that] by (simp add: cb_spent)
  have later: "deliver after timeout (image_eval_cb img p timeout)
      = image_eval_cb img p timeout" if "b \<le> run p"
    using zero [OF that] by (simp add: deliver_spent)
  have seq: "deliver (before @ [p] @ after) timeout img = image_eval_cb img p timeout"
    if "\<forall>t \<in> set before. run t < b" "b \<le> run p"
    using that assms deliver_once [of timeout img before p after] by simp
  show ?thesis
    using below trip zero again later seq message_parts [of b "run p" "percent p"]
    by blast
qed

theorem image_eval_cb_trips_once_witness:
  "(0 :: nat) < length [2 :: int] \<and> [2 :: int] ! 0 = 2 \<and> (0 :: int) < 2
   \<and> image_eval_cb
        \<lparr>kill = False, progress_signal = True, local_cells = [2], eval_handlers = [0],
         error_buffer = []\<rparr> \<lparr>run = 1, percent = 30\<rparr> 0
      = \<lparr>kill = False, progress_signal = True, local_cells = [2], eval_handlers = [0],
         error_buffer = []\<rparr>
   \<and> deliver [\<lparr>run = 1, percent = 30\<rparr>, \<lparr>run = 2, percent = 60\<rparr>] 0
        \<lparr>kill = False, progress_signal = True, local_cells = [2], eval_handlers = [0],
         error_buffer = []\<rparr>
      = \<lparr>kill = True, progress_signal = True, local_cells = [0], eval_handlers = [0],
         error_buffer = ''weserv: Maximum image processing time of 2 seconds exceeded with 2 seconds. Operation was canceled after 60% completion'' @ [CHR 0x0A]\<rparr>
   \<and> deliver [\<lparr>run = 1, percent = 30\<rparr>, \<lparr>run = 2, percent = 60\<rparr>,
          \<lparr>run = 3, percent = 90\<rparr>, \<lparr>run = 2, percent = 95\<rparr>] 0
        \<lparr>kill = False, progress_signal = True, local_cells = [2], eval_handlers = [0],
         error_buffer = []\<rparr>
      = \<lparr>kill = True, progress_signal = True, local_cells = [0], eval_handlers = [0],
         error_buffer = ''weserv: Maximum image processing time of 2 seconds exceeded with 2 seconds. Operation was canceled after 60% completion'' @ [CHR 0x0A]\<rparr>"
proof -
  let ?img = "\<lparr>kill = False, progress_signal = True, local_cells = [2 :: int],
         eval_handlers = [0 :: nat], error_buffer = []\<rparr>"
  let ?t1 = "\<lparr>run = 1, percent = 30\<rparr>"
  let ?t2 = "\<lparr>run = 2, percent = 60\<rparr>"
  let ?rest = "[\<lparr>run = 3, percent = 90\<rparr>, \<lparr>run = 2, percent = 95\<rparr>]"
  have pre: "0 < length (local_cells ?img)" "local_cells ?img ! 0 = 2" "(0 :: int) < 2"
    by simp_all
  have msg: "timeout_message 2 2 60 = ''Maximum image processing time of 2 seconds exceeded with 2 seconds. Operation was canceled after 60% completion''"
    by (simp add: timeout_message_def show_int_def show_nat.simps digit_char_def)
  have a: "image_eval_cb ?img ?t1 0 = ?img"
    using image_eval_cb_trips_once [OF pre, of ?t1] by simp
  have b: "image_eval_cb ?img ?t2 0 = \<lparr>kill = True, progress_signal = True, local_cells = [0], eval_handlers = [0],
         error_buffer = ''weserv: Maximum image processing time of 2 seconds exceeded with 2 seconds. Operation was canceled after 60% completion'' @ [CHR 0x0A]\<rparr>"
    using image_eval_cb_trips_once [OF pre, of ?t2] by (simp add: msg)
  have c: "deliver ([?t1] @ [?t2] @ []) 0 ?img = image_eval_cb ?img ?t2 0"
    using image_eval_cb_trips_once [OF pre, of ?t2 _ "[]" "[?t1]"] by simp
  have d: "deliver ([?t1] @ [?t2] @ ?rest) 0 ?img = image_eval_cb ?img ?t2 0"
    using image_eval_cb_trips_once [OF pre, of ?t2 _ ?rest "[?t1]"] by simp
  show ?thesis using a b c d by simp
qed

text \<open>
  Claim C9.  For a process timeout of 0 or less, \<open>setup_timeout_handler\<close> returns the
  image state unchanged: no budget cell is allocated, no handler is connected to the
  \<open>eval\<close> signal, and progress reporting is not switched on.  For a positive timeout it
  allocates one cell holding the timeout, connects one handler whose user data points to
  that cell, and switches progress reporting on.
\<close>

theorem setup_timeout_handler_registers_iff_positive:
  "(process_timeout \<le> 0 \<longrightarrow>
      setup_timeout_handler img process_timeout = img
      \<and> local_cells (setup_timeout_handler img process_timeout) = local_cells img
      \<and> eval_handlers (setup_timeout_handler img process_timeout) = eval_handlers img
      \<and> progress_signal (setup_timeout_handler img process_timeout) = progress_signal img)
   \<and> (0 < process_timeout \<longrightarrow>
      setup_timeout_handler img process_timeout =
        img\<lparr>progress_signal := True,
            local_cells := local_cells img @ [process_timeout],
            eval_handlers := eval_handlers img @ [length (local_cells img)]\<rparr>
      \<and> local_cells (setup_timeout_handler img process_timeout)
            ! last (eval_handlers (setup_timeout_handler img process_timeout))
          = process_timeout)"
  by (simp add: setup_off setup_on)

theorem setup_timeout_handler_witness:
  "(0 :: int) \<le> 0 \<and> (- 5 :: int) \<le> 0 \<and> (0 :: int) < 2
   \<and> setup_timeout_handler
        \<lparr>kill = False, progress_signal = False, local_cells = [], eval_handlers = [],
         error_buffer = []\<rparr> 0
      = \<lparr>kill = False, progress_signal = False, local_cells = [], eval_handlers = [],
         error_buffer = []\<rparr>
   \<and> setup_timeout_handler
        \<lparr>kill = False, progress_signal = False, local_cells = [], eval_handlers = [],
         error_buffer = []\<rparr> (- 5)
      = \<lparr>kill = False, progress_signal = False, local_cells = [], eval_handlers = [],
         error_buffer = []\<rparr>
   \<and> setup_timeout_handler
        \<lparr>kill = False, progress_signal = False, local_cells = [], eval_handlers = [],
         error_buffer = []\<rparr> 2
      = \<lparr>kill = False, progress_signal = True, local_cells = [2], eval_handlers = [0],
         error_buffer = []\<rparr>"
  using setup_timeout_handler_registers_iff_positive
      [of 0 "\<lparr>kill = False, progress_signal = False, local_cells = [], eval_handlers = [],
         error_buffer = []\<rparr>"]
    setup_timeout_handler_registers_iff_positive
      [of "- 5" "\<lparr>kill = False, progress_signal = False, local_cells = [],
         eval_handlers = [], error_buffer = []\<rparr>"]
    setup_timeout_handler_registers_iff_positive
      [of 2 "\<lparr>kill = False, progress_signal = False, local_cells = [], eval_handlers = [],
         error_buffer = []\<rparr>"]
  by simp

section \<open>Properties of the floating-point model\<close>

lemma pow2_pos: "0 < pow2 k"
  by (simp add: pow2_def)

lemma pow2_powr: "pow2 k = 2 powr (real_of_int k)"
proof (cases "0 \<le> k")
  case True
  then have "2 powr (real_of_int k) = 2 powr (real (nat k))" by simp
  also have "\<dots> = (2 :: real) ^ nat k" by (rule powr_realpow) simp
  finally show ?thesis using True by (simp only: pow2_def if_True)
next
  case False
  then have "2 powr (real_of_int k) = 2 powr (- real (nat (- k)))" by simp
  also have "\<dots> = 1 / 2 powr (real (nat (- k)))" by (rule powr_minus_divide)
  also have "2 powr (real (nat (- k))) = (2 :: real) ^ nat (- k)" by (rule powr_realpow) simp
  finally show ?thesis using False by (simp only: pow2_def if_False)
qed

lemma pow2_add1: "pow2 (k + 1) = 2 * pow2 k"
  by (simp add: pow2_powr powr_add)

lemma exponent_up_bounds:
  "1 \<le> x \<Longrightarrow> pow2 (exponent_up x) \<le> x \<and> x < pow2 (exponent_up x + 1)"
proof (induction x rule: exponent_up.induct)
  case (1 x)
  show ?case
  proof (cases "2 \<le> x")
    case True
    define e where "e = exponent_up (x / 2)"
    have ih: "pow2 e \<le> x / 2 \<and> x / 2 < pow2 (e + 1)"
      unfolding e_def using "1.IH" True by simp
    have ex: "exponent_up x = e + 1"
      unfolding e_def using True by (subst exponent_up.simps) simp
    have "pow2 (e + 1) = 2 * pow2 e" "pow2 (e + 1 + 1) = 2 * pow2 (e + 1)"
      by (rule pow2_add1)+
    with ih show ?thesis unfolding ex by linarith
  next
    case False
    have ex: "exponent_up x = 0"
      using False by (subst exponent_up.simps) simp
    show ?thesis
      unfolding ex using False "1.prems" by (simp add: pow2_def)
  qed
qed

lemma exponent_down_bounds:
  "0 < x \<Longrightarrow> x < 1 \<Longrightarrow>
     pow2 (exponent_down x) \<le> x \<and> x < pow2 (exponent_down x + 1)"
proof (induction x rule: exponent_down.induct)
  case (1 x)
  define e where "e = exponent_down (2 * x)"
  have ex: "exponent_down x = e - 1"
    unfolding e_def using "1.prems" by (subst exponent_down.simps) simp
  have half: "pow2 e = 2 * pow2 (e - 1)"
    using pow2_add1 [of "e - 1"] by simp
  show ?case
  proof (cases "2 * x < 1")
    case True
    have ih: "pow2 e \<le> 2 * x \<and> 2 * x < pow2 (e + 1)"
      unfolding e_def using "1.IH" "1.prems" True by simp
    have "pow2 (e + 1) = 2 * pow2 e" by (rule pow2_add1)
    with ih half show ?thesis unfolding ex by simp
  next
    case False
    have "e = 0"
      unfolding e_def using False by (subst exponent_down.simps) simp
    then show ?thesis
      unfolding ex using False "1.prems" by (simp add: pow2_def)
  qed
qed

lemma float_exponent_bounds:
  assumes "x \<noteq> 0"
  shows "pow2 (float_exponent x) \<le> \<bar>x\<bar> \<and> \<bar>x\<bar> < pow2 (float_exponent x + 1)"
proof (cases "1 \<le> \<bar>x\<bar>")
  case True
  then show ?thesis
    using exponent_up_bounds [of "\<bar>x\<bar>"] by (simp add: float_exponent_def)
next
  case False
  then show ?thesis
    using assms exponent_down_bounds [of "\<bar>x\<bar>"] by (simp add: float_exponent_def)
qed

lemmas fp_eval = round_double_def round_float_def fl_round_def max_finite_def round_even_def
  float_exponent_def exponent_up.simps exponent_down.simps pow2_def Let_def
  double_of_int_def float_of_int_def

lemma fl_round_examples:
  "round_double (11 / 10) = Finite (4953959590107546 / 2 ^ 52)"
  "round_double (33 / 4 / (4953959590107546 / 2 ^ 52)) = Finite (15 / 2 - 1 / 2 ^ 50)"
  "round_float (1 / 10) = Finite (13421773 / 2 ^ 27)"
  "round_float 16777217 = Finite 16777216"
  "round_float (2 ^ 128) = PInf"
  "round_float (3 / 2 ^ 150) = Finite (1 / 2 ^ 148)"
  by (simp_all add: fp_eval)

section \<open>Properties of the focal-point resolver\<close>

lemma static_cast_int_of_int: "static_cast_int (of_int k) = k"
  by (simp add: static_cast_int_def)

lemma std_round_int: "std_round x = real_of_int (round_half_away x)"
proof (cases "0 \<le> x")
  case True
  then show ?thesis by (simp add: std_round_def round_half_away_def)
next
  case False
  then have "std_round x = real_of_int \<lceil>x - 1 / 2\<rceil>"
    by (simp only: std_round_def if_False)
  also have "\<lceil>x - 1 / 2\<rceil> = - \<lfloor>- x + 1 / 2\<rfloor>"
    by (simp add: ceiling_def)
  finally show ?thesis
    using False by (simp add: round_half_away_def)
qed

lemma cast_round: "static_cast_int (std_round x) = round_half_away x"
  by (simp only: std_round_int static_cast_int_of_int)



lemma std_clamp_bounds: "lo \<le> hi \<Longrightarrow> lo \<le> std_clamp v lo hi \<and> std_clamp v lo hi \<le> hi"
  by (simp add: std_clamp_def)

lemma std_clamp_inverted: "hi < lo \<Longrightarrow> std_clamp v lo hi = (if v < lo then lo else hi)"
  by (simp add: std_clamp_def)

lemma focal_fst:
  "fst (calculate_focal_point indefinite fpx fpy iw ih tw th mw mh)
     = std_clamp (focal_candidate indefinite (focal_center fpx iw (focal_factor iw ih tw th)) tw)
         0 (mw - tw)"
  by (simp add: calculate_focal_point_def Let_def)

lemma focal_snd:
  "snd (calculate_focal_point indefinite fpx fpy iw ih tw th mw mh)
     = std_clamp (focal_candidate indefinite (focal_center fpy ih (focal_factor iw ih tw th)) th)
         0 (mh - th)"
  by (simp add: calculate_focal_point_def Let_def)

lemmas focal_eval = fp_eval focal_factor_def focal_center_def focal_candidate_def
  calculate_focal_point_def std_min_def std_round_def static_cast_int_def std_clamp_def


text \<open>
  Claim C10.  For every focal point, also outside the unit square, infinite or NaN, and
  all sizes with target and input dimensions at least 1 and the image at least as large
  as the target, the offsets returned by \<open>calculate_focal_point\<close> satisfy
  \<open>0 \<le> left \<le> image_width - target_width\<close> and \<open>0 \<le> top \<le> image_height - target_height\<close>,
  whatever the conversion to \<^verbatim>\<open>int\<close> delivers where it is undefined.
  When the image is narrower than the target the clamp's bounds are inverted and the
  offset is outside them: with image 50 by 50 and target 100 by 100 the result is
  (-50, -50).
\<close>

theorem calculate_focal_point_in_bounds:
  "(1 \<le> tw \<and> 1 \<le> th \<and> 1 \<le> iw \<and> 1 \<le> ih \<and> tw \<le> mw \<and> th \<le> mh \<longrightarrow>
      0 \<le> fst (calculate_focal_point indefinite fpx fpy iw ih tw th mw mh)
      \<and> fst (calculate_focal_point indefinite fpx fpy iw ih tw th mw mh) \<le> mw - tw
      \<and> 0 \<le> snd (calculate_focal_point indefinite fpx fpy iw ih tw th mw mh)
      \<and> snd (calculate_focal_point indefinite fpx fpy iw ih tw th mw mh) \<le> mh - th)
   \<and> (mw < tw \<longrightarrow>
      fst (calculate_focal_point indefinite fpx fpy iw ih tw th mw mh) \<in> {0, mw - tw}
      \<and> \<not> (0 \<le> fst (calculate_focal_point indefinite fpx fpy iw ih tw th mw mh)
           \<and> fst (calculate_focal_point indefinite fpx fpy iw ih tw th mw mh) \<le> mw - tw))
   \<and> (mh < th \<longrightarrow>
      snd (calculate_focal_point indefinite fpx fpy iw ih tw th mw mh) \<in> {0, mh - th}
      \<and> \<not> (0 \<le> snd (calculate_focal_point indefinite fpx fpy iw ih tw th mw mh)
           \<and> snd (calculate_focal_point indefinite fpx fpy iw ih tw th mw mh) \<le> mh - th))
   \<and> calculate_focal_point indefinite (Finite (1 / 2)) (Finite (1 / 2))
         200 200 100 100 50 50 = (- 50, - 50)"
proof -
  have inside: "0 \<le> fst (calculate_focal_point indefinite fpx fpy iw ih tw th mw mh)
      \<and> fst (calculate_focal_point indefinite fpx fpy iw ih tw th mw mh) \<le> mw - tw
      \<and> 0 \<le> snd (calculate_focal_point indefinite fpx fpy iw ih tw th mw mh)
      \<and> snd (calculate_focal_point indefinite fpx fpy iw ih tw th mw mh) \<le> mh - th"
    if "tw \<le> mw" "th \<le> mh"
    unfolding focal_fst focal_snd
    using that std_clamp_bounds [of 0 "mw - tw"] std_clamp_bounds [of 0 "mh - th"] by simp
  have narrow: "fst (calculate_focal_point indefinite fpx fpy iw ih tw th mw mh) \<in> {0, mw - tw}
      \<and> \<not> (0 \<le> fst (calculate_focal_point indefinite fpx fpy iw ih tw th mw mh)
           \<and> fst (calculate_focal_point indefinite fpx fpy iw ih tw th mw mh) \<le> mw - tw)"
    if "mw < tw"
    unfolding focal_fst using that by (simp add: std_clamp_inverted)
  have short: "snd (calculate_focal_point indefinite fpx fpy iw ih tw th mw mh) \<in> {0, mh - th}
      \<and> \<not> (0 \<le> snd (calculate_focal_point indefinite fpx fpy iw ih tw th mw mh)
           \<and> snd (calculate_focal_point indefinite fpx fpy iw ih tw th mw mh) \<le> mh - th)"
    if "mh < th"
    unfolding focal_snd using that by (simp add: std_clamp_inverted)
  have candidate: "focal_candidate indefinite
      (focal_center (Finite (1 / 2)) 200 (focal_factor 200 200 100 100)) 100 = 0"
    by (simp add: focal_eval)
  have example: "calculate_focal_point indefinite (Finite (1 / 2)) (Finite (1 / 2))
         200 200 100 100 50 50 = (- 50, - 50)"
    by (simp add: calculate_focal_point_def candidate std_clamp_def Let_def)
  show ?thesis
    using inside narrow short example by blast
qed

theorem calculate_focal_point_in_bounds_witness:
  "(1 :: int) \<le> 100 \<and> (1 :: int) \<le> 200 \<and> (100 :: int) \<le> 150 \<and> (50 :: int) < 100
   \<and> calculate_focal_point 99 (Finite 7) (Finite (- 3)) 200 200 100 100 150 150 = (50, 0)
   \<and> calculate_focal_point 99 NaN PInf 200 200 100 100 150 150 = (50, 50)
   \<and> fst (calculate_focal_point 99 (Finite 7) (Finite (- 3)) 200 200 100 100 50 150) = - 50"
proof -
  have factor: "focal_factor 200 200 100 100 = Finite 2"
    by (simp add: focal_eval)
  have cx: "focal_candidate 99 (focal_center (Finite 7) 200 (Finite 2)) 100 = 650"
    by (simp add: focal_eval)
  have cy: "focal_candidate 99 (focal_center (Finite (- 3)) 200 (Finite 2)) 100 = - 350"
    by (simp add: focal_eval)
  have cn: "focal_candidate 99 (focal_center NaN 200 (Finite 2)) 100 = 99"
    "focal_candidate 99 (focal_center PInf 200 (Finite 2)) 100 = 99"
    by (simp_all add: focal_eval)
  have a: "calculate_focal_point 99 (Finite 7) (Finite (- 3)) 200 200 100 100 150 150 = (50, 0)"
    by (simp add: calculate_focal_point_def factor cx cy std_clamp_def)
  have b: "fst (calculate_focal_point 99 (Finite 7) (Finite (- 3)) 200 200 100 100 50 150) = - 50"
    by (simp add: calculate_focal_point_def factor cx cy std_clamp_def)
  have c: "calculate_focal_point 99 NaN PInf 200 200 100 100 150 150 = (50, 50)"
    by (simp add: calculate_focal_point_def factor cn std_clamp_def)
  show ?thesis
    using a b c
      calculate_focal_point_in_bounds [of 100 100 200 200 150 150 99 "Finite 7" "Finite (- 3)"]
      calculate_focal_point_in_bounds [of 100 100 200 200 50 150 99 "Finite 7" "Finite (- 3)"]
    by simp
qed

section \<open>Properties of the multi-page crop\<close>

lemma extract_area_Inr:
  "extract_area img left top' width height = Inr page \<Longrightarrow>
     page = ExtractArea img left top' width height \<and> 0 < height \<and> 0 < width"
  by (auto simp: extract_area_def split: if_splits)

lemma crop_pages_eq:
  "0 \<le> i \<Longrightarrow>
   crop_pages img left top' width height n_pages page_height i pages =
     (case all_or_first_error
             (map (page_region img left top' width height page_height) [nat i..<nat n_pages]) of
        Inl e \<Rightarrow> Inl e
      | Inr ps \<Rightarrow> Inr (pages @ ps))"
proof (induction img left top' width height n_pages page_height i pages
    rule: crop_pages.induct)
  case (1 img left top' width height n_pages page_height i pages)
  show ?case
  proof (cases "i < n_pages")
    case False
    then have "[nat i..<nat n_pages] = []" by simp
    with False show ?thesis
      by (subst crop_pages.simps) simp
  next
    case True
    with "1.prems" have upt: "[nat i..<nat n_pages] = nat i # [nat (i + 1)..<nat n_pages]"
      by (simp add: upt_conv_Cons nat_add_distrib)
    have region: "page_region img left top' width height page_height (nat i)
        = extract_area img left (page_height * i + top') width height"
      using "1.prems" by (simp add: page_region_def)
    show ?thesis
    proof (cases "extract_area img left (page_height * i + top') width height")
      case (Inl e)
      with True show ?thesis
        by (subst crop_pages.simps) (simp add: upt region)
    next
      case (Inr page)
      have "crop_pages img left top' width height n_pages page_height (i + 1) (pages @ [page])
          = (case all_or_first_error
                (map (page_region img left top' width height page_height)
                   [nat (i + 1)..<nat n_pages]) of
              Inl e \<Rightarrow> Inl e
            | Inr ps \<Rightarrow> Inr ((pages @ [page]) @ ps))"
        using "1.IH" [OF True Inr] "1.prems" by simp
      with True Inr show ?thesis
        by (subst crop_pages.simps) (simp add: upt region split: sum.splits)
    qed
  qed
qed

lemma all_or_first_error_Inr:
  "all_or_first_error (map f xs) = Inr ps \<Longrightarrow> map Inr ps = map f xs"
proof (induction xs arbitrary: ps)
  case Nil
  then show ?case by simp
next
  case (Cons x xs)
  then show ?case
    by (cases "f x") (auto split: sum.splits)
qed

lemma pages_of_regions:
  assumes "all_or_first_error
      (map (page_region img left top' width height page_height) [0..<k]) = Inr ps"
  shows "ps = map (\<lambda>i. ExtractArea img left (page_height * int i + top') width height) [0..<k]"
proof -
  have eq: "map Inr ps = map (page_region img left top' width height page_height) [0..<k]"
    using all_or_first_error_Inr [OF assms] .
  then have len: "length ps = k"
    by (metis length_map length_upt minus_nat.diff_0)
  show ?thesis
  proof (rule nth_equalityI)
    show "length ps = length (map (\<lambda>i. ExtractArea img left (page_height * int i + top')
        width height) [0..<k])"
      using len by simp
  next
    fix i assume "i < length ps"
    then have i: "i < k" using len by simp
    have "map Inr ps ! i = map (page_region img left top' width height page_height) [0..<k] ! i"
      using eq by simp
    then have "page_region img left top' width height page_height i = Inr (ps ! i)"
      using i len by simp
    then have "ps ! i = ExtractArea img left (page_height * int i + top') width height"
      unfolding page_region_def using extract_area_Inr by blast
    then show "ps ! i = map (\<lambda>i. ExtractArea img left (page_height * int i + top')
        width height) [0..<k] ! i"
      using i by simp
  qed
qed

lemma crop_general:
  assumes "\<not> (top' = 0 \<and> height = page_height)" "0 \<le> n_pages"
  shows "crop_multi_page img left top' width height n_pages page_height =
     join_pages (all_or_first_error
        (map (page_region img left top' width height page_height) [0..<nat n_pages]))"
  using assms crop_pages_eq [of 0 img left top' width height n_pages page_height "[]"]
  by (auto simp: crop_multi_page_def join_pages_def split: sum.splits)

lemma crop_general_Inr:
  assumes "\<not> (top' = 0 \<and> height = page_height)"
    and "crop_multi_page img left top' width height n_pages page_height = Inr r"
  shows "0 < n_pages \<and> r = ArrayJoin
     (map (\<lambda>i. ExtractArea img left (page_height * int i + top') width height)
        [0..<nat n_pages]) 1"
proof -
  have n: "0 \<le> n_pages"
    using assms by (auto simp: crop_multi_page_def split: if_splits)
  from crop_general [OF assms(1) n] assms(2)
  obtain ps where ps: "all_or_first_error
        (map (page_region img left top' width height page_height) [0..<nat n_pages]) = Inr ps"
    and r: "arrayjoin ps 1 = Inr r"
    by (auto simp: join_pages_def split: sum.splits)
  have form: "ps = map (\<lambda>i. ExtractArea img left (page_height * int i + top') width height)
      [0..<nat n_pages]"
    using pages_of_regions [OF ps] .
  from r have "ps \<noteq> []" "r = ArrayJoin ps 1"
    by (auto simp: arrayjoin_def split: if_splits)
  with form n show ?thesis by auto
qed

lemma max_list_const: "xs \<noteq> [] \<Longrightarrow> \<forall>x \<in> set xs. x = c \<Longrightarrow> max_list xs = c"
  by (induction xs rule: max_list.induct) auto

lemma joined_height:
  assumes "0 < n"
  shows "image_height (ArrayJoin
     (map (\<lambda>i. ExtractArea img left (page_height * int i + top') width height) [0..<nat n]) 1)
     = n * height"
proof -
  let ?ps = "map (\<lambda>i. ExtractArea img left (page_height * int i + top') width height) [0..<nat n]"
  have "map image_height ?ps \<noteq> []" using assms by simp
  moreover have "\<forall>x \<in> set (map image_height ?ps). x = height" by auto
  ultimately have "max_list (map image_height ?ps) = height"
    by (rule max_list_const)
  then show ?thesis using assms by simp
qed

text \<open>
  Claim C3.  \<open>crop_multi_page\<close> takes the fast path exactly when \<open>top = 0\<close> and
  \<open>height = page_height\<close>: its result is then the single extraction
  \<open>(left, 0, width, image height)\<close> and no join.  Otherwise it extracts, for every \<open>i\<close>
  below \<open>n_pages\<close>, the region \<open>(left, page_height * i + top, width, height)\<close> and joins
  the pages in their original order in one column; a returned image is that join and
  never a bare extraction.  With top 5, height 30, page height 40 and 3 pages, three
  regions of height 30 are joined into an image 90 tall.
\<close>

theorem crop_multi_page_paths:
  "(top' = 0 \<and> height = page_height \<longrightarrow>
      crop_multi_page img left top' width height n_pages page_height
        = extract_area img left 0 width (image_height img))
   \<and> (\<not> (top' = 0 \<and> height = page_height) \<and> 0 \<le> n_pages \<longrightarrow>
      crop_multi_page img left top' width height n_pages page_height
        = join_pages (all_or_first_error
            (map (page_region img left top' width height page_height) [0..<nat n_pages])))
   \<and> (\<not> (top' = 0 \<and> height = page_height)
        \<and> crop_multi_page img left top' width height n_pages page_height = Inr r \<longrightarrow>
      r = ArrayJoin
            (map (\<lambda>i. ExtractArea img left (page_height * int i + top') width height)
               [0..<nat n_pages]) 1)
   \<and> crop_multi_page (Decoded 30 120) 5 5 20 30 3 40
        = Inr (ArrayJoin [ExtractArea (Decoded 30 120) 5 5 20 30,
                          ExtractArea (Decoded 30 120) 5 45 20 30,
                          ExtractArea (Decoded 30 120) 5 85 20 30] 1)
   \<and> image_height (ArrayJoin [ExtractArea (Decoded 30 120) 5 5 20 30,
                          ExtractArea (Decoded 30 120) 5 45 20 30,
                          ExtractArea (Decoded 30 120) 5 85 20 30] 1) = 90
   \<and> image_width (ArrayJoin [ExtractArea (Decoded 30 120) 5 5 20 30,
                          ExtractArea (Decoded 30 120) 5 45 20 30,
                          ExtractArea (Decoded 30 120) 5 85 20 30] 1) = 20"
proof -
  have fast: "crop_multi_page img left top' width height n_pages page_height
        = extract_area img left 0 width (image_height img)"
    if "top' = 0 \<and> height = page_height"
    using that by (simp add: crop_multi_page_def)
  have example: "crop_multi_page (Decoded 30 120) 5 5 20 30 3 40
        = Inr (ArrayJoin [ExtractArea (Decoded 30 120) 5 5 20 30,
                          ExtractArea (Decoded 30 120) 5 45 20 30,
                          ExtractArea (Decoded 30 120) 5 85 20 30] 1)"
    by (simp add: crop_multi_page_def crop_pages.simps extract_area_def arrayjoin_def)
  have dims: "image_height (ArrayJoin [ExtractArea (Decoded 30 120) 5 5 20 30,
                          ExtractArea (Decoded 30 120) 5 45 20 30,
                          ExtractArea (Decoded 30 120) 5 85 20 30] 1) = 90"
    "image_width (ArrayJoin [ExtractArea (Decoded 30 120) 5 5 20 30,
                          ExtractArea (Decoded 30 120) 5 45 20 30,
                          ExtractArea (Decoded 30 120) 5 85 20 30] 1) = 20"
    by simp_all
  show ?thesis
    using fast crop_general [of top' height page_height n_pages img left width]
      crop_general_Inr [of top' height page_height img left width n_pages r] example dims
    by blast
qed

theorem crop_multi_page_paths_witness:
  "crop_multi_page (Decoded 30 120) 5 0 20 40 3 40
     = Inr (ExtractArea (Decoded 30 120) 5 0 20 120)
   \<and> crop_multi_page (Decoded 30 120) 5 5 20 30 2 40
     = Inr (ArrayJoin [ExtractArea (Decoded 30 120) 5 5 20 30,
                       ExtractArea (Decoded 30 120) 5 45 20 30] 1)
   \<and> crop_multi_page (Decoded 30 100) 5 5 20 30 3 40
     = Inl (VError ''extract_area: bad extract area'')"
proof -
  have a: "crop_multi_page (Decoded 30 120) 5 0 20 40 3 40
      = extract_area (Decoded 30 120) 5 0 20 (image_height (Decoded 30 120))"
    using crop_multi_page_paths [where top' = 0 and height = 40 and page_height = 40
        and img = "Decoded 30 120" and left = 5 and width = 20 and n_pages = 3] by simp
  have b: "crop_multi_page (Decoded 30 120) 5 5 20 30 2 40
      = join_pages (all_or_first_error
            (map (page_region (Decoded 30 120) 5 5 20 30 40) [0..<nat 2]))"
    using crop_multi_page_paths [where top' = 5 and height = 30 and page_height = 40
        and img = "Decoded 30 120" and left = 5 and width = 20 and n_pages = 2] by simp
  have c: "crop_multi_page (Decoded 30 100) 5 5 20 30 3 40
      = join_pages (all_or_first_error
            (map (page_region (Decoded 30 100) 5 5 20 30 40) [0..<nat 3]))"
    using crop_multi_page_paths [where top' = 5 and height = 30 and page_height = 40
        and img = "Decoded 30 100" and left = 5 and width = 20 and n_pages = 3] by simp
  have two: "[0..<nat 2] = [0, 1]" and three: "[0..<nat 3] = [0, 1, 2]"
    by (simp_all add: upt_conv_Cons)
  show ?thesis
    unfolding a b c two three
    by (simp add: extract_area_def join_pages_def page_region_def arrayjoin_def)
qed

text \<open>
  Claim C4, as the claim states it, fails on the fast path: that path never reads
  \<open>n_pages\<close> and returns the source image's height.  A source 120 rows tall, cropped
  with \<open>top = 0\<close>, \<open>height = page_height = 40\<close> and \<open>n_pages = 2\<close>, gives an image 120
  rows tall, not \<open>2 * 40\<close>.
\<close>

theorem crop_multi_page_height_counterexample:
  "(1 :: int) \<le> 2
   \<and> crop_multi_page (Decoded 30 120) 5 0 20 40 2 40
       = Inr (ExtractArea (Decoded 30 120) 5 0 20 120)
   \<and> image_height (ExtractArea (Decoded 30 120) 5 0 20 120) = 120
   \<and> image_height (ExtractArea (Decoded 30 120) 5 0 20 120) \<noteq> 2 * 40"
  by (simp add: crop_multi_page_def extract_area_def)

text \<open>
  Claim C4, amended.  For a call with at least one page that returns an image, the height
  of the returned image is \<open>n_pages * height\<close> on the general path; on the fast path
  (\<open>top = 0\<close> and \<open>height = page_height\<close>) it is the height of the source image,
  unchanged, and so it is \<open>n_pages * page_height\<close> exactly when the source image is
  \<open>n_pages * page_height\<close> rows tall.
\<close>

theorem crop_multi_page_height:
  assumes "1 \<le> n_pages"
    and "crop_multi_page img left top' width height n_pages page_height = Inr r"
  shows "(\<not> (top' = 0 \<and> height = page_height) \<longrightarrow> image_height r = n_pages * height)
    \<and> (top' = 0 \<and> height = page_height \<longrightarrow>
          image_height r = image_height img
          \<and> (image_height r = n_pages * page_height)
              = (image_height img = n_pages * page_height))"
proof -
  have general: "image_height r = n_pages * height"
    if "\<not> (top' = 0 \<and> height = page_height)"
    using crop_general_Inr [OF that assms(2)] assms(1)
      joined_height [of n_pages img left page_height top' width height]
    by simp
  have fast: "image_height r = image_height img" if "top' = 0 \<and> height = page_height"
  proof -
    have "extract_area img left 0 width (image_height img) = Inr r"
      using that assms(2) by (simp add: crop_multi_page_def)
    then have "r = ExtractArea img left 0 width (image_height img)"
      using extract_area_Inr by blast
    then show ?thesis by simp
  qed
  show ?thesis using general fast by simp
qed

theorem crop_multi_page_height_witness:
  "(1 :: int) \<le> 3
   \<and> crop_multi_page (Decoded 30 120) 5 5 20 30 3 40
       = Inr (ArrayJoin [ExtractArea (Decoded 30 120) 5 5 20 30,
                         ExtractArea (Decoded 30 120) 5 45 20 30,
                         ExtractArea (Decoded 30 120) 5 85 20 30] 1)
   \<and> image_height (ArrayJoin [ExtractArea (Decoded 30 120) 5 5 20 30,
                         ExtractArea (Decoded 30 120) 5 45 20 30,
                         ExtractArea (Decoded 30 120) 5 85 20 30] 1) = 3 * 30
   \<and> crop_multi_page (Decoded 30 120) 5 0 20 40 3 40
       = Inr (ExtractArea (Decoded 30 120) 5 0 20 120)
   \<and> image_height (ExtractArea (Decoded 30 120) 5 0 20 120) = image_height (Decoded 30 120)
   \<and> image_height (ExtractArea (Decoded 30 120) 5 0 20 120) = 3 * 40
   \<and> crop_multi_page (Decoded 30 100) 5 0 20 40 3 40
       = Inr (ExtractArea (Decoded 30 100) 5 0 20 100)
   \<and> image_height (ExtractArea (Decoded 30 100) 5 0 20 100) = image_height (Decoded 30 100)
   \<and> image_height (ExtractArea (Decoded 30 100) 5 0 20 100) \<noteq> 3 * 40"
proof -
  have n: "(1 :: int) \<le> 3" by simp
  have g: "crop_multi_page (Decoded 30 120) 5 5 20 30 3 40
       = Inr (ArrayJoin [ExtractArea (Decoded 30 120) 5 5 20 30,
                         ExtractArea (Decoded 30 120) 5 45 20 30,
                         ExtractArea (Decoded 30 120) 5 85 20 30] 1)"
    by (simp add: crop_multi_page_def crop_pages.simps extract_area_def arrayjoin_def)
  have f: "crop_multi_page (Decoded 30 120) 5 0 20 40 3 40
       = Inr (ExtractArea (Decoded 30 120) 5 0 20 120)"
    by (simp add: crop_multi_page_def extract_area_def)
  have h: "crop_multi_page (Decoded 30 100) 5 0 20 40 3 40
       = Inr (ExtractArea (Decoded 30 100) 5 0 20 100)"
    by (simp add: crop_multi_page_def extract_area_def)
  show ?thesis
    using n g f h crop_multi_page_height [OF n g] crop_multi_page_height [OF n f]
      crop_multi_page_height [OF n h]
    by simp
qed

section \<open>Properties of the descriptive document\<close>

lemma join_with_Cons: "ys \<noteq> [] \<Longrightarrow> join_with sep (a # ys) = a @ sep @ join_with sep ys"
  by (cases ys) simp_all

lemma join_with_filtered:
  "join_with sep (map m (filter P ks) @ [x])
     = concat (map (\<lambda>k. if P k then m k @ sep else []) ks) @ x"
  by (induction ks) (simp_all add: join_with_Cons)

lemma put_delays_join: "put_delays ds = join_with '','' (map show_int ds)"
  by (induction ds rule: put_delays.induct) simp_all

lemma bind_exn_Inr: "bind_exn (Inr x) f = f x"
  by (simp add: bind_exn_def)

lemma typed_int:
  "typed_as img name 24 \<Longrightarrow> meta img name \<noteq> None \<Longrightarrow>
     get_int img name = Inr (the_int (meta img name))"
  by (auto simp: typed_as_def get_int_def the_int_def split: option.splits GValue.splits)

lemma typed_string:
  "typed_as img name 64 \<Longrightarrow> meta img name \<noteq> None \<Longrightarrow>
     get_string img name = Inr (the_string (meta img name))"
  by (auto simp: typed_as_def get_string_def the_string_def split: option.splits GValue.splits)

lemma typed_array:
  "typed_as img name 65 \<Longrightarrow> meta img name \<noteq> None \<Longrightarrow>
     get_array_int img name = Inr (the_array (meta img name))"
  by (auto simp: typed_as_def get_array_int_def the_array_def split: option.splits GValue.splits)

lemma get_typeof_0:
  "0 < get_typeof img name \<longleftrightarrow> meta img name \<noteq> None"
  "get_typeof img name = 0 \<longleftrightarrow> meta img name = None"
proof -
  have "0 < gtype v" for v by (cases v) simp_all
  then show "0 < get_typeof img name \<longleftrightarrow> meta img name \<noteq> None"
    by (simp add: get_typeof_def split: option.splits)
  then show "get_typeof img name = 0 \<longleftrightarrow> meta img name = None"
    by auto
qed

lemma put_int_step:
  \<open>typed_as img name 24 \<Longrightarrow>
   put_int_if_present img name key json =
     Inr (json @ (if meta img name \<noteq> None
                  then ''"'' @ key @ ''":'' @ show_int (the_int (meta img name)) @ '',''
                  else []))\<close>
  by (simp add: put_int_if_present_def get_typeof_0 typed_int bind_exn_Inr)

lemma orientation_step:
  "typed_as img ''orientation'' 24 \<Longrightarrow>
   exif_orientation img = Inr (the_int (meta img ''orientation''))"
  by (cases "meta img ''orientation''")
     (simp_all add: exif_orientation_def VIPS_META_ORIENTATION_def get_typeof_0 typed_int
        the_int_def)


lemma seg_simps:
  \<open>member_segment img t ''format'' = ''"format":"'' @ image_type_id t @ ''",''\<close>
  \<open>member_segment img t ''width'' = ''"width":'' @ show_int (Xsize img) @ '',''\<close>
  \<open>member_segment img t ''height'' = ''"height":'' @ show_int (Ysize img) @ '',''\<close>
  \<open>member_segment img t ''space'' = ''"space":"'' @ interpretation_nick img @ ''",''\<close>
  \<open>member_segment img t ''channels'' = ''"channels":'' @ show_int (Bands img) @ '',''\<close>
  \<open>member_segment img t ''depth'' = ''"depth":"'' @ format_nick img @ ''",''\<close>
  by (simp_all add: member_segment_def key_present_def backing_tag_def json_member_def
        key_value_def json_string_def)

lemma step_head:
  \<open>''{'' @ ''"format":"'' @ image_type_id t @ ''",''
      @ ''"width":'' @ show_int (Xsize img) @ '',''
      @ ''"height":'' @ show_int (Ysize img) @ '',''
      @ ''"space":"'' @ interpretation_nick img @ ''",''
      @ ''"channels":'' @ show_int (Bands img) @ '',''
      @ ''"depth":"'' @ format_nick img @ ''",''
    = ''{'' @ member_segment img t ''format'' @ member_segment img t ''width''
      @ member_segment img t ''height'' @ member_segment img t ''space''
      @ member_segment img t ''channels'' @ member_segment img t ''depth''\<close>
  by (simp add: seg_simps)

lemma step_density:
  \<open>(if has_density img then json @ ''"density":'' @ show_int (get_density img) @ '','' else json)
    = json @ member_segment img t ''density''\<close>
  by (simp add: member_segment_def key_present_def json_member_def key_value_def
        has_density_def get_density_def cast_round)

lemma step_chroma:
  \<open>typed_as img ''jpeg-chroma-subsample'' 64 \<Longrightarrow>
   (if get_typeof img ''jpeg-chroma-subsample'' \<noteq> 0 then
      bind_exn (get_string img ''jpeg-chroma-subsample'')
        (\<lambda>s. Inr (json @ ''"chromaSubsampling":"'' @ s @ ''",''))
    else Inr json)
   = Inr (json @ member_segment img t ''chromaSubsampling'')\<close>
  by (simp add: member_segment_def key_present_def backing_tag_def json_member_def
        key_value_def json_string_def get_typeof_0 typed_string bind_exn_Inr)

lemma step_progressive:
  \<open>json @ ''"isProgressive":''
      @ (if get_typeof img ''interlaced'' \<noteq> 0 then ''true'' else ''false'') @ '',''
   = json @ member_segment img t ''isProgressive''\<close>
  by (simp add: member_segment_def key_present_def backing_tag_def json_member_def
        key_value_def json_bool_def get_typeof_0)

lemma step_ints:
  \<open>typed_as img ''palette-bit-depth'' 24 \<Longrightarrow>
     put_int_if_present img ''palette-bit-depth'' ''paletteBitDepth'' json
       = Inr (json @ member_segment img t ''paletteBitDepth'')\<close>
  \<open>typed_as img ''n-pages'' 24 \<Longrightarrow>
     put_int_if_present img VIPS_META_N_PAGES ''pages'' json
       = Inr (json @ member_segment img t ''pages'')\<close>
  \<open>typed_as img ''page-height'' 24 \<Longrightarrow>
     put_int_if_present img VIPS_META_PAGE_HEIGHT ''pageHeight'' json
       = Inr (json @ member_segment img t ''pageHeight'')\<close>
  \<open>typed_as img ''loop'' 24 \<Longrightarrow>
     put_int_if_present img ''loop'' ''loop'' json
       = Inr (json @ member_segment img t ''loop'')\<close>
  \<open>typed_as img ''heif-primary'' 24 \<Longrightarrow>
     put_int_if_present img ''heif-primary'' ''pagePrimary'' json
       = Inr (json @ member_segment img t ''pagePrimary'')\<close>
  by (simp_all add: put_int_step VIPS_META_N_PAGES_def VIPS_META_PAGE_HEIGHT_def
        member_segment_def key_present_def backing_tag_def json_member_def key_value_def)

lemma step_delay:
  \<open>typed_as img ''delay'' 65 \<Longrightarrow>
   (if get_typeof img ''delay'' \<noteq> 0 then
      bind_exn (get_array_int img ''delay'')
        (\<lambda>delays. Inr (json @ ''"delay":['' @ put_delays delays @ ''],''))
    else Inr json)
   = Inr (json @ member_segment img t ''delay'')\<close>
  by (simp add: member_segment_def key_present_def backing_tag_def json_member_def
        key_value_def get_typeof_0 typed_array bind_exn_Inr put_delays_join)

lemma step_tail:
  \<open>json @ ''"hasProfile":'' @ (if has_profile img then ''true'' else ''false'') @ '',''
      @ ''"hasAlpha":'' @ (if has_alpha img then ''true'' else ''false'') @ '',''
      @ ''"orientation":'' @ show_int (the_int (meta img ''orientation'')) @ ''}''
   = json @ member_segment img t ''hasProfile'' @ member_segment img t ''hasAlpha''
      @ json_member img t ''orientation'' @ ''}''\<close>
  by (simp add: member_segment_def key_present_def backing_tag_def json_member_def
        key_value_def json_bool_def has_profile_def VIPS_META_ICC_NAME_def get_typeof_0)

lemma join_with_present:
  "P x \<Longrightarrow> join_with sep (map m (filter P (ks @ [x])))
     = concat (map (\<lambda>k. if P k then m k @ sep else []) ks) @ m x"
  by (simp add: join_with_filtered)

lemma document_segments:
  "descriptive_document img t = ''{''
     @ member_segment img t ''format'' @ member_segment img t ''width''
     @ member_segment img t ''height'' @ member_segment img t ''space''
     @ member_segment img t ''channels'' @ member_segment img t ''depth''
     @ member_segment img t ''density'' @ member_segment img t ''chromaSubsampling''
     @ member_segment img t ''isProgressive'' @ member_segment img t ''paletteBitDepth''
     @ member_segment img t ''pages'' @ member_segment img t ''pageHeight''
     @ member_segment img t ''loop'' @ member_segment img t ''delay''
     @ member_segment img t ''pagePrimary'' @ member_segment img t ''hasProfile''
     @ member_segment img t ''hasAlpha'' @ json_member img t ''orientation'' @ ''}''"
proof -
  let ?front = "[''format'', ''width'', ''height'', ''space'', ''channels'', ''depth'',
      ''density'', ''chromaSubsampling'', ''isProgressive'', ''paletteBitDepth'', ''pages'',
      ''pageHeight'', ''loop'', ''delay'', ''pagePrimary'', ''hasProfile'', ''hasAlpha'']"
  have ko: "key_order = ?front @ [''orientation'']"
    by (simp add: key_order_def)
  have last: "key_present img ''orientation''"
    by (simp add: key_present_def backing_tag_def)
  have seg: "(\<lambda>k. if key_present img k then json_member img t k @ '','' else [])
      = member_segment img t"
    by (rule ext) (simp add: member_segment_def)
  have "join_with '','' (map (json_member img t) (filter (key_present img) key_order))
      = concat (map (member_segment img t) ?front) @ json_member img t ''orientation''"
    using join_with_present [where P = "key_present img" and x = "''orientation''"
        and sep = "'',''" and m = "json_member img t" and ks = ?front, OF last]
    by (simp only: seg ko)
  then show ?thesis
    by (simp only: descriptive_document_def json_object_def list.map concat.simps
          append_assoc append_Nil2)
qed

lemma image_to_json_document:
  assumes "well_typed img"
  shows "image_to_json img t = Inr (descriptive_document img t)"
proof -
  have ty: "typed_as img ''jpeg-chroma-subsample'' 64" "typed_as img ''palette-bit-depth'' 24"
    "typed_as img ''n-pages'' 24" "typed_as img ''page-height'' 24"
    "typed_as img ''loop'' 24" "typed_as img ''delay'' 65"
    "typed_as img ''heif-primary'' 24" "typed_as img ''orientation'' 24"
    using assms by (simp_all add: well_typed_def)
  show ?thesis
    unfolding document_segments image_to_json_def Let_def
    by (simp only: step_head [of t img] step_density [of img _ t] step_chroma [OF ty(1), of _ t]
          step_progressive [of _ img t] step_ints(1) [OF ty(2), of _ t]
          step_ints(2) [OF ty(3), of _ t] step_ints(3) [OF ty(4), of _ t]
          step_ints(4) [OF ty(5), of _ t] step_delay [OF ty(6), of _ t]
          step_ints(5) [OF ty(7), of _ t] orientation_step [OF ty(8)]
          step_tail [of _ img t] bind_exn_Inr)
       (simp only: append_assoc)
qed

lemma bind_exn_Inr_iff: "bind_exn r f = Inr y \<longleftrightarrow> (\<exists>x. r = Inr x \<and> f x = Inr y)"
  by (cases r) (simp_all add: bind_exn_def)

lemma get_int_typed: "get_int img name = Inr v \<Longrightarrow> typed_as img name 24"
  by (auto simp: get_int_def typed_as_def split: option.splits GValue.splits)

lemma get_string_typed: "get_string img name = Inr v \<Longrightarrow> typed_as img name 64"
  by (auto simp: get_string_def typed_as_def split: option.splits GValue.splits)

lemma get_array_int_typed: "get_array_int img name = Inr v \<Longrightarrow> typed_as img name 65"
  by (auto simp: get_array_int_def typed_as_def split: option.splits GValue.splits)

lemma absent_typed: "get_typeof img name = 0 \<Longrightarrow> typed_as img name ty"
  by (simp add: get_typeof_0 typed_as_def)

lemma put_int_typed:
  "put_int_if_present img name key json = Inr j \<Longrightarrow> typed_as img name 24"
  by (cases "get_typeof img name = 0")
     (auto simp: put_int_if_present_def bind_exn_Inr_iff absent_typed dest: get_int_typed)

lemma chroma_typed:
  "(if get_typeof img name \<noteq> 0 then bind_exn (get_string img name) f else Inr json) = Inr j
     \<Longrightarrow> typed_as img name 64"
  by (cases "get_typeof img name = 0")
     (auto simp: bind_exn_Inr_iff absent_typed dest: get_string_typed)

lemma delay_typed:
  "(if get_typeof img name \<noteq> 0 then bind_exn (get_array_int img name) f else Inr json) = Inr j
     \<Longrightarrow> typed_as img name 65"
  by (cases "get_typeof img name = 0")
     (auto simp: bind_exn_Inr_iff absent_typed dest: get_array_int_typed)

lemma orientation_typed:
  "exif_orientation img = Inr v \<Longrightarrow> typed_as img ''orientation'' 24"
  by (cases "get_typeof img ''orientation'' = 0")
     (auto simp: exif_orientation_def VIPS_META_ORIENTATION_def absent_typed
        dest: get_int_typed)

lemma bind_exn_InrE:
  assumes "bind_exn r f = Inr y"
  obtains x where "r = Inr x" and "f x = Inr y"
  using assms by (auto simp: bind_exn_Inr_iff)

lemma image_to_json_Inr_well_typed:
  assumes "image_to_json img t = Inr s"
  shows "well_typed img"
proof -
  have "typed_as img ''jpeg-chroma-subsample'' 64 \<and> typed_as img ''palette-bit-depth'' 24
      \<and> typed_as img VIPS_META_N_PAGES 24 \<and> typed_as img VIPS_META_PAGE_HEIGHT 24
      \<and> typed_as img ''loop'' 24 \<and> typed_as img ''delay'' 65
      \<and> typed_as img ''heif-primary'' 24 \<and> typed_as img ''orientation'' 24"
    using assms unfolding image_to_json_def Let_def
    by (elim bind_exn_InrE)
       (intro conjI;
        (erule chroma_typed | erule put_int_typed | erule delay_typed | erule orientation_typed))
  then show ?thesis
    by (simp add: well_typed_def VIPS_META_N_PAGES_def VIPS_META_PAGE_HEIGHT_def)
qed

text \<open>
  Claim C6.  Whenever \<open>image_to_json\<close> returns a document, and it does so for every
  image whose metadata fields have their libvips types, the document is the JSON object
  whose members are the present keys in the fixed order format, width, height, space,
  channels, depth, density, chromaSubsampling, isProgressive, paletteBitDepth, pages,
  pageHeight, loop, delay, pagePrimary, hasProfile, hasAlpha, orientation.  The keys
  format, width, height, space, channels, depth, isProgressive, hasProfile, hasAlpha and
  orientation are always present; density is present exactly when the horizontal
  resolution exceeds 1, and each other key exactly when its metadata field is.  With
  only density and delay present among the optional keys, density comes before delay
  and both before hasProfile.
\<close>

theorem image_to_json_key_order:
  "(well_typed img \<longrightarrow>
      image_to_json img t
        = Inr (json_object (map (json_member img t) (filter (key_present img) key_order))))
   \<and> (image_to_json img t = Inr s \<longrightarrow>
      s = json_object (map (json_member img t) (filter (key_present img) key_order)))
   \<and> key_order =
       [''format'', ''width'', ''height'', ''space'', ''channels'', ''depth'', ''density'',
        ''chromaSubsampling'', ''isProgressive'', ''paletteBitDepth'', ''pages'',
        ''pageHeight'', ''loop'', ''delay'', ''pagePrimary'', ''hasProfile'', ''hasAlpha'',
        ''orientation'']
   \<and> key_present img ''format'' \<and> key_present img ''width''
   \<and> key_present img ''height'' \<and> key_present img ''space''
   \<and> key_present img ''channels'' \<and> key_present img ''depth''
   \<and> key_present img ''isProgressive'' \<and> key_present img ''hasProfile''
   \<and> key_present img ''hasAlpha'' \<and> key_present img ''orientation''
   \<and> key_present img ''density'' = (1 < xres img)
   \<and> key_present img ''chromaSubsampling'' = (get_typeof img ''jpeg-chroma-subsample'' \<noteq> 0)
   \<and> key_present img ''paletteBitDepth'' = (get_typeof img ''palette-bit-depth'' \<noteq> 0)
   \<and> key_present img ''pages'' = (get_typeof img ''n-pages'' \<noteq> 0)
   \<and> key_present img ''pageHeight'' = (get_typeof img ''page-height'' \<noteq> 0)
   \<and> key_present img ''loop'' = (get_typeof img ''loop'' \<noteq> 0)
   \<and> key_present img ''delay'' = (get_typeof img ''delay'' \<noteq> 0)
   \<and> key_present img ''pagePrimary'' = (get_typeof img ''heif-primary'' \<noteq> 0)
   \<and> (1 < xres img \<and> get_typeof img ''delay'' \<noteq> 0
        \<and> get_typeof img ''jpeg-chroma-subsample'' = 0
        \<and> get_typeof img ''palette-bit-depth'' = 0 \<and> get_typeof img ''n-pages'' = 0
        \<and> get_typeof img ''page-height'' = 0 \<and> get_typeof img ''loop'' = 0
        \<and> get_typeof img ''heif-primary'' = 0 \<longrightarrow>
      filter (key_present img) key_order =
        [''format'', ''width'', ''height'', ''space'', ''channels'', ''depth'', ''density'',
         ''isProgressive'', ''delay'', ''hasProfile'', ''hasAlpha'', ''orientation''])"
proof -
  have returns: "image_to_json img t
        = Inr (json_object (map (json_member img t) (filter (key_present img) key_order)))"
    if "well_typed img"
    using image_to_json_document [OF that] by (simp add: descriptive_document_def)
  have returned: "s = json_object (map (json_member img t) (filter (key_present img) key_order))"
    if "image_to_json img t = Inr s"
    using returns [OF image_to_json_Inr_well_typed [OF that]] that by simp
  have order: "key_order =
       [''format'', ''width'', ''height'', ''space'', ''channels'', ''depth'', ''density'',
        ''chromaSubsampling'', ''isProgressive'', ''paletteBitDepth'', ''pages'',
        ''pageHeight'', ''loop'', ''delay'', ''pagePrimary'', ''hasProfile'', ''hasAlpha'',
        ''orientation'']"
    by (simp add: key_order_def)
  have always: "key_present img ''format''" "key_present img ''width''"
    "key_present img ''height''" "key_present img ''space''"
    "key_present img ''channels''" "key_present img ''depth''"
    "key_present img ''isProgressive''" "key_present img ''hasProfile''"
    "key_present img ''hasAlpha''" "key_present img ''orientation''"
    by (simp_all add: key_present_def backing_tag_def)
  have conditional: "key_present img ''density'' = (1 < xres img)"
    "key_present img ''chromaSubsampling'' = (get_typeof img ''jpeg-chroma-subsample'' \<noteq> 0)"
    "key_present img ''paletteBitDepth'' = (get_typeof img ''palette-bit-depth'' \<noteq> 0)"
    "key_present img ''pages'' = (get_typeof img ''n-pages'' \<noteq> 0)"
    "key_present img ''pageHeight'' = (get_typeof img ''page-height'' \<noteq> 0)"
    "key_present img ''loop'' = (get_typeof img ''loop'' \<noteq> 0)"
    "key_present img ''delay'' = (get_typeof img ''delay'' \<noteq> 0)"
    "key_present img ''pagePrimary'' = (get_typeof img ''heif-primary'' \<noteq> 0)"
    by (simp_all add: key_present_def backing_tag_def get_typeof_0)
  have example: "filter (key_present img) key_order =
        [''format'', ''width'', ''height'', ''space'', ''channels'', ''depth'', ''density'',
         ''isProgressive'', ''delay'', ''hasProfile'', ''hasAlpha'', ''orientation'']"
    if "1 < xres img \<and> get_typeof img ''delay'' \<noteq> 0
        \<and> get_typeof img ''jpeg-chroma-subsample'' = 0
        \<and> get_typeof img ''palette-bit-depth'' = 0 \<and> get_typeof img ''n-pages'' = 0
        \<and> get_typeof img ''page-height'' = 0 \<and> get_typeof img ''loop'' = 0
        \<and> get_typeof img ''heif-primary'' = 0"
    unfolding order using that always by (simp add: conditional)
  show ?thesis
    using returns returned order always conditional example by blast
qed

theorem image_to_json_key_order_witness:
  \<open>well_typed
     \<lparr>Xsize = 640, Ysize = 480, Bands = 3, interpretation_nick = ''srgb'',
      format_nick = ''uchar'', xres = 2835 / 1000, has_alpha = False,
      meta = (\<lambda>n. if n = ''delay'' then Some (GArrayInt [100, 80]) else None)\<rparr>
   \<and> image_to_json
     \<lparr>Xsize = 640, Ysize = 480, Bands = 3, interpretation_nick = ''srgb'',
      format_nick = ''uchar'', xres = 2835 / 1000, has_alpha = False,
      meta = (\<lambda>n. if n = ''delay'' then Some (GArrayInt [100, 80]) else None)\<rparr> Gif
     = Inr ''{"format":"gif","width":640,"height":480,"space":"srgb","channels":3,"depth":"uchar","density":72,"isProgressive":false,"delay":[100,80],"hasProfile":false,"hasAlpha":false,"orientation":0}''\<close>
proof -
  let ?img = "\<lparr>Xsize = 640, Ysize = 480, Bands = 3, interpretation_nick = ''srgb'',
      format_nick = ''uchar'', xres = 2835 / 1000, has_alpha = False,
      meta = (\<lambda>n. if n = ''delay'' then Some (GArrayInt [100, 80]) else None)\<rparr>"
  have wt: "well_typed ?img"
    by (simp add: well_typed_def typed_as_def)
  have pre: "1 < xres ?img \<and> get_typeof ?img ''delay'' \<noteq> 0
        \<and> get_typeof ?img ''jpeg-chroma-subsample'' = 0
        \<and> get_typeof ?img ''palette-bit-depth'' = 0 \<and> get_typeof ?img ''n-pages'' = 0
        \<and> get_typeof ?img ''page-height'' = 0 \<and> get_typeof ?img ''loop'' = 0
        \<and> get_typeof ?img ''heif-primary'' = 0"
    by (simp add: get_typeof_def)
  note inst = image_to_json_key_order [of ?img Gif]
  have keys: "filter (key_present ?img) key_order =
        [''format'', ''width'', ''height'', ''space'', ''channels'', ''depth'', ''density'',
         ''isProgressive'', ''delay'', ''hasProfile'', ''hasAlpha'', ''orientation'']"
    using inst pre by blast
  have doc: "image_to_json ?img Gif
      = Inr (json_object (map (json_member ?img Gif) (filter (key_present ?img) key_order)))"
    using inst wt by blast
  have nums: "show_int 640 = ''640''" "show_int 480 = ''480''" "show_int 3 = ''3''"
    "show_int 72 = ''72''" "show_int 100 = ''100''" "show_int 80 = ''80''" "show_int 0 = ''0''"
    by (simp_all add: show_int_def show_nat.simps digit_char_def)
  have js: \<open>image_to_json ?img Gif
     = Inr ''{"format":"gif","width":640,"height":480,"space":"srgb","channels":3,"depth":"uchar","density":72,"isProgressive":false,"delay":[100,80],"hasProfile":false,"hasAlpha":false,"orientation":0}''\<close>
    unfolding doc keys
    by (simp add: json_object_def json_member_def key_value_def json_string_def
          json_bool_def the_int_def the_array_def round_half_away_def nums)
  show ?thesis
    by (rule conjI [OF wt js])
qed

end
